theory Spec2Isabelle
  imports Complex_Main
begin

section \<open>Data model (types.ts)\<close>

text \<open>
  JavaScript numbers are modelled as exact reals: the thresholds and the arithmetic of the
  program are read as real arithmetic, rounding is not represented.
\<close>

datatype AppMode = TREE | SCATTER | FOCUS

datatype Gesture = OPEN | CLOSED | PINCH | NONE

text \<open>\<open>HandData\<close>: the fields \<open>x\<close> and \<open>y\<close> of the source are \<open>hx\<close> and \<open>hy\<close> here.\<close>

record HandData =
  hx :: real
  hy :: real
  gesture :: Gesture
  pinchDistance :: real

text \<open>\<open>ParticleType\<close>: the string \<open>'TREE'\<close> of the source is \<open>TREE_ORNAMENT\<close> here.\<close>

datatype ParticleType =
  SPHERE | CUBE | TRIANGLE | GIFT | SOCK | BELL | TIE | TREE_ORNAMENT | SANTA | PHOTO

record ParticleConfig =
  count :: nat
  treeHeight :: real
  treeRadius :: real

definition CONFIG_particles :: ParticleConfig where
  "CONFIG_particles = \<lparr>count = 800, treeHeight = 25, treeRadius = 9\<rparr>"

section \<open>The render backend's objects, as far as the program reads them\<close>

text \<open>\<open>THREE.Vector3\<close>, with fields \<open>vx\<close>, \<open>vy\<close>, \<open>vz\<close> for \<open>x\<close>, \<open>y\<close>, \<open>z\<close>.\<close>

record Vector3 =
  vx :: real
  vy :: real
  vz :: real

text \<open>
  \<open>THREE.Object3D\<close>: an object is known by its identity \<open>oid\<close> (the source compares objects
  with \<open>===\<close>) and carries its \<open>parent\<close> pointer, \<open>None\<close> for \<open>null\<close>. A value of this type is
  an object together with its chain of owners up to a root, so the chain is finite.
\<close>

datatype Object3D = Object3D (oid: nat) (parent: "Object3D option")

definition scene :: Object3D where
  "scene = Object3D 0 None"

definition mainGroup :: Object3D where
  "mainGroup = Object3D 1 (Some scene)"

definition photoGroup :: Object3D where
  "photoGroup = Object3D 2 (Some mainGroup)"

text \<open>
  An entry of \<open>stateRef.current.particles\<close>. \<open>position\<close> and \<open>scale\<close> are \<open>mesh.position\<close> and
  \<open>mesh.scale\<close> (the program only ever sets the scale with \<open>setScalar\<close> and reads \<open>scale.x\<close>);
  \<open>ptype\<close> is the field \<open>type\<close>; \<open>transitionType\<close> is absent on decorative particles.
\<close>

record Particle =
  mesh :: Object3D
  position :: Vector3
  scale :: real
  ptype :: ParticleType
  treePos :: Vector3
  scatterPos :: Vector3
  spin :: Vector3
  baseScale :: real
  isPhoto :: bool
  transitionType :: "int option"

text \<open>\<open>stateRef.current\<close> of the component \<open>Experience\<close>.\<close>

record State =
  mode :: AppMode
  handData :: HandData
  focusTarget :: "Object3D option"
  particles :: "Particle list"
  rotationX :: real
  rotationY :: real
  targetRotationX :: real
  targetRotationY :: real
  smoothedPinch :: real

definition initialState :: State where
  "initialState =
     \<lparr>mode = SCATTER,
      handData = \<lparr>hx = 0.5, hy = 0.5, gesture = NONE, pinchDistance = 1\<rparr>,
      focusTarget = None,
      particles = [],
      rotationX = 0,
      rotationY = 0,
      targetRotationX = 0,
      targetRotationY = 0,
      smoothedPinch = 0.05\<rparr>"

section \<open>The gesture callback \<open>onHandData\<close>\<close>

text \<open>
  The callback stores the sample, then applies the mode rules. The call of \<open>setMode\<close> copies
  the mode into the React state of the overlay and is not part of \<open>stateRef\<close>.
\<close>

definition onHandData :: "State \<Rightarrow> HandData \<Rightarrow> State" where
  "onHandData st data =
     (let st1 = st\<lparr>handData := data\<rparr>;
          currentMode = mode st1
      in if gesture data = CLOSED then st1\<lparr>mode := TREE, focusTarget := None\<rparr>
         else if gesture data = OPEN then
           (if currentMode \<noteq> FOCUS \<or> pinchDistance data > 0.4
            then st1\<lparr>mode := SCATTER, focusTarget := None\<rparr>
            else st1)
         else st1)"

section \<open>The gesture classifier \<open>HandTrackingService.processResult\<close>\<close>

text \<open>A landmark of the hand landmarker (\<open>NormalizedLandmark\<close>), fields \<open>x\<close>, \<open>y\<close>, \<open>z\<close>.\<close>

record Landmark =
  lx :: real
  ly :: real
  lz :: real

datatype error = TypeError

text \<open>\<open>Math.hypot\<close> on two arguments.\<close>

definition hypot :: "real \<Rightarrow> real \<Rightarrow> real" where
  "hypot a b = sqrt (a * a + b * b)"

definition neutralSample :: HandData where
  "neutralSample = \<lparr>hx = 0.5, hy = 0.5, gesture = NONE, pinchDistance = 1\<rparr>"

text \<open>
  The argument is \<open>result.landmarks\<close> (\<open>None\<close> when the field is missing); the value is the
  sample handed to \<open>onHandData\<close>. Reading \<open>.x\<close> of a landmark index that the array does not
  have raises a \<open>TypeError\<close> before anything is emitted; index 20 is the largest one read.
\<close>

definition processResult :: "Landmark list list option \<Rightarrow> error + HandData" where
  "processResult result_landmarks =
     (case result_landmarks of
        None \<Rightarrow> Inr neutralSample
      | Some [] \<Rightarrow> Inr neutralSample
      | Some (landmarks # _) \<Rightarrow>
          if length landmarks < 21 then Inl TypeError
          else
            (let indexTip = landmarks ! 8;
                 thumbTip = landmarks ! 4;
                 middleTip = landmarks ! 12;
                 ringTip = landmarks ! 16;
                 pinkyTip = landmarks ! 20;
                 wrist = landmarks ! 0;
                 pinchDist = hypot (lx indexTip - lx thumbTip) (ly indexTip - ly thumbTip);
                 isPinching = pinchDist < 0.05;
                 fingers = [indexTip, middleTip, ringTip, pinkyTip];
                 foldedCount =
                   length (filter (\<lambda>f. hypot (lx f - lx wrist) (ly f - ly wrist) < 0.15) fingers);
                 gest = (if foldedCount \<ge> 3 then CLOSED else if isPinching then PINCH else OPEN)
             in Inr \<lparr>hx = 1 - lx indexTip, hy = ly indexTip, gesture = gest,
                     pinchDistance = pinchDist\<rparr>))"

section \<open>Scene set-up: the particle system\<close>

text \<open>
  \<open>Math.random()\<close> is a parameter throughout: a function \<open>rnd\<close> gives the draws of one piece
  of code in the order in which it makes them.
\<close>

definition getTreePos :: "(nat \<Rightarrow> real) \<Rightarrow> Vector3" where
  "getTreePos rnd =
     (let h = treeHeight CONFIG_particles;
          t = rnd 0 powr 0.8;
          y = (t * h) - (h / 2);
          rMax = treeRadius CONFIG_particles * (1.0 - t);
          angle = rnd 1 * pi * 2;
          r = rMax * (0.4 + rnd 2 * 0.6)
      in \<lparr>vx = cos angle * r, vy = y, vz = sin angle * r\<rparr>)"

definition getScatterPos :: "(nat \<Rightarrow> real) \<Rightarrow> Vector3" where
  "getScatterPos rnd =
     (let r = 12 + rnd 0 * 20;
          theta = rnd 1 * pi * 2;
          phi = arccos (2 * rnd 2 - 1)
      in \<lparr>vx = r * sin phi * cos theta, vy = r * sin phi * sin theta, vz = r * cos phi\<rparr>)"

definition types :: "ParticleType list" where
  "types = [SPHERE, CUBE, TRIANGLE, GIFT, SOCK, BELL, TIE, TREE_ORNAMENT, SANTA]"

text \<open>
  One iteration of the creation loop; it makes 14 draws (type, spin, initial rotation, tree
  position, scatter position, base scale). \<open>Math.random()\<close> lies in \<open>[0, 1)\<close>, which keeps
  the index into \<open>types\<close> in range; for a draw outside it the model takes \<open>CUBE\<close>, the mesh
  that the last branch of the source builds. The mesh is added to \<open>mainGroup\<close>; a new mesh
  has position 0 and scale 1.
\<close>

definition createParticle :: "(nat \<Rightarrow> real) \<Rightarrow> nat \<Rightarrow> Particle" where
  "createParticle rnd i =
     (let k = \<lfloor>rnd 0 * real (length types)\<rfloor>;
          type = (if 0 \<le> k \<and> k < int (length types) then types ! nat k else CUBE);
          spin = \<lparr>vx = (rnd 1 - 0.5) * 0.02, vy = (rnd 2 - 0.5) * 0.02,
                  vz = (rnd 3 - 0.5) * 0.02\<rparr>
      in \<lparr>mesh = Object3D (3 + i) (Some mainGroup),
          position = \<lparr>vx = 0, vy = 0, vz = 0\<rparr>,
          scale = 1,
          ptype = type,
          treePos = getTreePos (\<lambda>j. rnd (7 + j)),
          scatterPos = getScatterPos (\<lambda>j. rnd (10 + j)),
          spin = spin,
          baseScale = 0.8 + rnd 13 * 0.6,
          isPhoto = False,
          transitionType = None\<rparr>)"

text \<open>The mount effect, as far as \<open>stateRef\<close> goes: it stores the created particles.\<close>

definition mountEffect :: "(nat \<Rightarrow> real) \<Rightarrow> State \<Rightarrow> State" where
  "mountEffect rnd st =
     st\<lparr>particles :=
          map (\<lambda>i. createParticle (\<lambda>j. rnd (14 * i + j)) i) [0 ..< count CONFIG_particles]\<rparr>"

section \<open>The animation tick \<open>animate\<close>\<close>

text \<open>
  What one frame takes from outside \<open>stateRef\<close>: the clock (\<open>delta\<close>, \<open>elapsed\<close>), the
  objects of the scene that the ray from the camera through the cursor meets, nearest first
  (\<open>rayHits\<close>), and the point \<open>(0, 0, 30)\<close> turned by the inverse of the field's orientation
  (\<open>camPos\<close>); the last two are computed by the render backend.
\<close>

record Frame =
  delta :: real
  elapsed :: real
  rayHits :: "Object3D list"
  camPos :: Vector3

text \<open>\<open>THREE.MathUtils.clamp\<close>, \<open>THREE.MathUtils.lerp\<close> and \<open>Vector3.lerp\<close>.\<close>

definition clamp :: "real \<Rightarrow> real \<Rightarrow> real \<Rightarrow> real" where
  "clamp value lo hi = max lo (min hi value)"

definition lerp :: "real \<Rightarrow> real \<Rightarrow> real \<Rightarrow> real" where
  "lerp a b t = (1 - t) * a + t * b"

definition lerpV :: "Vector3 \<Rightarrow> Vector3 \<Rightarrow> real \<Rightarrow> Vector3" where
  "lerpV v target alpha =
     \<lparr>vx = vx v + (vx target - vx v) * alpha,
      vy = vy v + (vy target - vy v) * alpha,
      vz = vz v + (vz target - vz v) * alpha\<rparr>"

definition multiplyScalar :: "Vector3 \<Rightarrow> real \<Rightarrow> Vector3" where
  "multiplyScalar v s = \<lparr>vx = vx v * s, vy = vy v * s, vz = vz v * s\<rparr>"

text \<open>The identities of an object and of its owners, from the object upwards.\<close>

fun ancestorsOrSelf :: "Object3D \<Rightarrow> nat list" where
  "ancestorsOrSelf (Object3D i None) = [i]"
| "ancestorsOrSelf (Object3D i (Some par)) = i # ancestorsOrSelf par"

text \<open>
  \<open>Raycaster.intersectObjects(objects, true)\<close> of the render backend: of the objects that the
  ray meets, those that are one of \<open>objects\<close> or lie below one of them, nearest first.
\<close>

definition intersectObjects :: "Object3D list \<Rightarrow> Object3D list \<Rightarrow> Object3D list" where
  "intersectObjects hits objects =
     filter (\<lambda>h. \<exists>ob \<in> set objects. oid ob \<in> set (ancestorsOrSelf h)) hits"

text \<open>
  The loop that climbs from the hit object to the top-level handle. Both branches of its
  body move to the parent (the third, \<open>break\<close>, cannot be taken: the loop condition has just
  found the parent present).
\<close>

fun resolveRoot :: "Particle list \<Rightarrow> Object3D \<Rightarrow> Object3D" where
  "resolveRoot ps (Object3D i None) = Object3D i None"
| "resolveRoot ps (Object3D i (Some par)) =
     (if oid par \<noteq> oid mainGroup \<and> oid par \<noteq> oid photoGroup then
        (let isRoot = list_ex (\<lambda>p. oid (mesh p) = oid par) ps
         in if isRoot then resolveRoot ps par else resolveRoot ps par)
      else Object3D i (Some par))"

text \<open>The block \<open>Raycasting Logic\<close> of the tick.\<close>

definition raycastingLogic :: "Object3D list \<Rightarrow> State \<Rightarrow> State" where
  "raycastingLogic hits st =
     (if gesture (handData st) = PINCH \<and> focusTarget st = None then
        (let photos = map mesh (filter isPhoto (particles st));
             intersects = intersectObjects hits photos
         in case intersects of
              [] \<Rightarrow> st
            | ob # _ \<Rightarrow>
                (let target = resolveRoot (particles st) ob
                 in case find (\<lambda>p. oid (mesh p) = oid target) (particles st) of
                      None \<Rightarrow> st
                    | Some particle \<Rightarrow> st\<lparr>mode := FOCUS, focusTarget := Some (mesh particle)\<rparr>))
      else st)"

text \<open>\<open>p.mesh === stateRef.current.focusTarget\<close>.\<close>

definition isFocusTarget :: "Object3D option \<Rightarrow> Particle \<Rightarrow> bool" where
  "isFocusTarget ft p = (case ft of None \<Rightarrow> False | Some t \<Rightarrow> oid (mesh p) = oid t)"

text \<open>
  The target position and target scale of particle \<open>p\<close> at index \<open>i\<close>, from the mode and the
  focus target of \<open>stateRef\<close> and the smoothed pinch distance of this tick.
\<close>

definition particleTarget ::
  "Frame \<Rightarrow> AppMode \<Rightarrow> Object3D option \<Rightarrow> real \<Rightarrow> Particle \<Rightarrow> nat \<Rightarrow> Vector3 \<times> real" where
  "particleTarget fr m ft pinchVal p i =
     (case m of
        TREE \<Rightarrow>
          ((treePos p)\<lparr>vy := vy (treePos p) + sin (elapsed fr * 1.5 + real i * 0.1) * 0.1\<rparr>,
           baseScale p)
      | SCATTER \<Rightarrow>
          ((scatterPos p)\<lparr>vy := vy (scatterPos p) + sin (elapsed fr * 0.8 + real i) * 0.3\<rparr>,
           baseScale p)
      | FOCUS \<Rightarrow>
          if isFocusTarget ft p then
            (let zoomFactor = clamp pinchVal 0.0 0.4
             in (camPos fr, 5 + (zoomFactor * 12)))
          else (multiplyScalar (scatterPos p) 1.8, 0))"

definition lerpSpeed :: "Particle \<Rightarrow> real" where
  "lerpSpeed p = (if isPhoto p then 6 else 4)"

definition updateParticle ::
  "Frame \<Rightarrow> AppMode \<Rightarrow> Object3D option \<Rightarrow> real \<Rightarrow> Particle \<times> nat \<Rightarrow> Particle" where
  "updateParticle fr m ft pinchVal ip =
     (let p = fst ip;
          (targetPos, targetScale) = particleTarget fr m ft pinchVal p (snd ip);
          currentScale = scale p;
          nextScale = lerp currentScale targetScale (5 * delta fr)
      in p\<lparr>position := lerpV (position p) targetPos (lerpSpeed p * delta fr),
           scale := nextScale\<rparr>)"

text \<open>
  The tick on \<open>stateRef\<close> and the particle transforms. Lights, snow, the cursor mesh and the
  orientation of the meshes are drawing state outside \<open>stateRef\<close> and are left out.
\<close>

definition animate :: "Frame \<Rightarrow> State \<Rightarrow> State" where
  "animate fr st =
     (let st1 = st\<lparr>smoothedPinch :=
                    smoothedPinch st + (pinchDistance (handData st) - smoothedPinch st) * 0.1\<rparr>;
          pinchVal = smoothedPinch st1;
          targetRotY = (hx (handData st) - 0.5) * 3;
          targetRotX = (hy (handData st) - 0.5) * 1.5;
          st2 = st1\<lparr>rotationY := rotationY st1 + (targetRotY - rotationY st1) * 2.5 * delta fr,
                    rotationX := rotationX st1 + (targetRotX - rotationX st1) * 2.5 * delta fr\<rparr>;
          st3 = raycastingLogic (rayHits fr) st2
      in st3\<lparr>particles :=
               map (updateParticle fr (mode st3) (focusTarget st3) pinchVal)
                   (zip (particles st3) [0 ..< length (particles st3)])\<rparr>)"

section \<open>Photo ingestion\<close>

text \<open>
  The display rectangle \<open>(w, h)\<close> computed in \<open>img.onload\<close> from \<open>img.width\<close> and
  \<open>img.height\<close>. For height 0 the source divides by zero (\<open>Infinity\<close> or \<open>NaN\<close>), which the
  reals do not represent; the properties below are about images of positive size.
\<close>

definition photoSize :: "nat \<Rightarrow> nat \<Rightarrow> real \<times> real" where
  "photoSize width height =
     (let aspect = real width / real height;
          w = 3;
          h = 3 / aspect
      in if aspect < 1 then (3 * aspect, 3) else (w, h))"

text \<open>
  The mesh that \<open>img.onload\<close> builds: the image plane, its frame, the invisible hit sphere
  and the position on the shell.
\<close>

record PhotoMesh =
  meshId :: nat
  planeSize :: "real \<times> real"
  frameSize :: "real \<times> real"
  hitRadius :: real
  meshPosition :: Vector3

definition onload :: "nat \<Rightarrow> (nat \<Rightarrow> real) \<Rightarrow> nat \<Rightarrow> nat \<Rightarrow> PhotoMesh" where
  "onload newId rnd width height =
     (let (w, h) = photoSize width height;
          r = 20 + rnd 0 * 10;
          theta = rnd 1 * pi * 2;
          phi = arccos (2 * rnd 2 - 1)
      in \<lparr>meshId = newId,
          planeSize = (w, h),
          frameSize = (w + 0.15, h + 0.15),
          hitRadius = max w h * 0.8,
          meshPosition =
            \<lparr>vx = r * sin phi * cos theta, vy = r * sin phi * sin theta, vz = r * cos phi\<rparr>\<rparr>)"

text \<open>
  The listener of the event \<open>add-photo\<close>. \<open>parent.add(mesh)\<close> sets the parent of the mesh;
  the scale of a new mesh is 1.
\<close>

definition addPhoto :: "(nat \<Rightarrow> real) \<Rightarrow> PhotoMesh \<Rightarrow> State \<Rightarrow> State" where
  "addPhoto rnd m st =
     (let h = treeHeight CONFIG_particles;
          t = rnd 0 powr 0.8;
          y = (t * h) - (h / 2);
          rMax = treeRadius CONFIG_particles * (1.0 - t);
          angle = rnd 1 * pi * 2;
          r = rMax * 0.8;
          treePos = \<lparr>vx = cos angle * r, vy = y, vz = sin angle * r\<rparr>
      in case particles st of
           [] \<Rightarrow> st
         | p0 # _ \<Rightarrow>
             (case parent (mesh p0) of
                None \<Rightarrow> st
              | Some par \<Rightarrow>
                  st\<lparr>particles := particles st @
                       [\<lparr>mesh = Object3D (meshId m) (Some par),
                         position = meshPosition m,
                         scale = 1,
                         ptype = PHOTO,
                         treePos = treePos,
                         scatterPos = meshPosition m,
                         spin = \<lparr>vx = (rnd 2 - 0.5) * 0.02, vy = (rnd 3 - 0.5) * 0.02,
                                 vz = 0 * 0.02\<rparr>,
                         baseScale = 1.0,
                         isPhoto = True,
                         transitionType = Some \<lfloor>rnd 4 * 3\<rfloor>\<rparr>]\<rparr>))"

text \<open>
  Loading one image. The browser's decoder is the parameter \<open>decode\<close>: \<open>Some (width, height)\<close>
  when the image loads and \<open>onload\<close> runs, \<open>None\<close> when it cannot be decoded (the browser
  fires \<open>error\<close>, for which the source registers no handler, so nothing runs). \<open>onload\<close>
  makes three draws and dispatches \<open>add-photo\<close>, whose listener runs at once and makes the
  next five.
\<close>

definition ingestImage ::
  "(string \<Rightarrow> (nat \<times> nat) option) \<Rightarrow> nat \<Rightarrow> (nat \<Rightarrow> real) \<Rightarrow> string \<Rightarrow> State \<Rightarrow> State" where
  "ingestImage decode newId rnd imageUrl st =
     (case decode imageUrl of
        None \<Rightarrow> st
      | Some (width, height) \<Rightarrow>
          addPhoto (\<lambda>j. rnd (3 + j)) (onload newId rnd width height) st)"

text \<open>
  The effect on \<open>uploadedImages\<close>, with every load of the batch settled: the images after
  \<open>processedImagesCount\<close> are ingested, here in upload order, the \<open>k\<close>-th image of
  \<open>uploadedImages\<close> with mesh identity \<open>newId k\<close> and draws \<open>rnd k\<close>; the count moves to the end.
\<close>

definition uploadEffect ::
  "(string \<Rightarrow> (nat \<times> nat) option) \<Rightarrow> (nat \<Rightarrow> nat) \<Rightarrow> (nat \<Rightarrow> nat \<Rightarrow> real) \<Rightarrow> string list \<Rightarrow>
   nat \<times> State \<Rightarrow> nat \<times> State" where
  "uploadEffect decode newId rnd uploadedImages ps =
     (let processedImagesCount = fst ps;
          newImages = drop processedImagesCount uploadedImages
      in if length newImages > 0 then
           (length uploadedImages,
            fold (\<lambda>ki. ingestImage decode (newId (fst ki)) (rnd (fst ki)) (snd ki))
                 (zip [processedImagesCount ..< length uploadedImages] newImages) (snd ps))
         else ps)"

section \<open>Reachable states\<close>

text \<open>
  The states of \<open>stateRef\<close> once the component is mounted: the callbacks and the tick are
  registered by the mount effect, and each runs to completion before the next starts.
\<close>

inductive reachable :: "State \<Rightarrow> bool" where
  mounted: "reachable (mountEffect rnd initialState)"
| sample: "reachable st \<Longrightarrow> reachable (onHandData st data)"
| tick: "reachable st \<Longrightarrow> reachable (animate fr st)"
| photo: "reachable st \<Longrightarrow> reachable (ingestImage decode newId rnd imageUrl st)"

section \<open>Repeated ticks towards a constant target\<close>

text \<open>
  The position of a particle after \<open>n\<close> ticks of \<open>position.lerp(targetPos, rate * delta)\<close>
  with the same target, the \<open>k\<close>-th tick with frame time \<open>dt k\<close>; \<open>positionError\<close> is the
  distance that is left to the target.
\<close>

primrec advance :: "real \<Rightarrow> (nat \<Rightarrow> real) \<Rightarrow> Vector3 \<Rightarrow> nat \<Rightarrow> Vector3 \<Rightarrow> Vector3" where
  "advance rate dt target 0 current = current"
| "advance rate dt target (Suc n) current =
     lerpV (advance rate dt target n current) target (rate * dt n)"

definition positionError :: "Vector3 \<Rightarrow> Vector3 \<Rightarrow> real" where
  "positionError target current =
     sqrt ((vx target - vx current)\<^sup>2 + (vy target - vy current)\<^sup>2
           + (vz target - vz current)\<^sup>2)"

text \<open>The error that is left after \<open>n\<close> such ticks, as a sequence in \<open>n\<close>.\<close>

definition errorAfter :: "real \<Rightarrow> (nat \<Rightarrow> real) \<Rightarrow> Vector3 \<Rightarrow> Vector3 \<Rightarrow> nat \<Rightarrow> real" where
  "errorAfter rate dt target current n = positionError target (advance rate dt target n current)"

text \<open>
  \<open>n\<close> runs of \<open>animate\<close> one after the other, the \<open>k\<close>-th on frame \<open>fr k\<close>, with no sample
  and no upload in between.
\<close>

primrec ticks :: "(nat \<Rightarrow> Frame) \<Rightarrow> nat \<Rightarrow> State \<Rightarrow> State" where
  "ticks fr 0 st = st"
| "ticks fr (Suc n) st = animate (fr n) (ticks fr n st)"

text \<open>The distance of particle \<open>i\<close> to \<open>target\<close> after \<open>n\<close> such runs, as a sequence in \<open>n\<close>.\<close>

definition tickError :: "(nat \<Rightarrow> Frame) \<Rightarrow> Vector3 \<Rightarrow> State \<Rightarrow> nat \<Rightarrow> nat \<Rightarrow> real" where
  "tickError fr target st i n = positionError target (position (particles (ticks fr n st) ! i))"

section \<open>Example values\<close>

definition origin :: Vector3 where
  "origin = \<lparr>vx = 0, vy = 0, vz = 0\<rparr>"


text \<open>A photo particle as \<open>addPhoto\<close> builds it, and a decorative one.\<close>

definition examplePhoto :: Particle where
  "examplePhoto =
     \<lparr>mesh = Object3D 803 (Some mainGroup),
      position = \<lparr>vx = 20, vy = 0, vz = 0\<rparr>,
      scale = 1,
      ptype = PHOTO,
      treePos = \<lparr>vx = 0, vy = 0, vz = 0\<rparr>,
      scatterPos = \<lparr>vx = 20, vy = 0, vz = 0\<rparr>,
      spin = \<lparr>vx = 0, vy = 0, vz = 0\<rparr>,
      baseScale = 1.0,
      isPhoto = True,
      transitionType = Some 0\<rparr>"

definition exampleOrnament :: Particle where
  "exampleOrnament =
     \<lparr>mesh = Object3D 3 (Some mainGroup),
      position = \<lparr>vx = 0, vy = 0, vz = 0\<rparr>,
      scale = 1,
      ptype = GIFT,
      treePos = \<lparr>vx = 1, vy = 2, vz = 1\<rparr>,
      scatterPos = \<lparr>vx = 0, vy = 15, vz = 0\<rparr>,
      spin = \<lparr>vx = 0, vy = 0, vz = 0\<rparr>,
      baseScale = 1.1,
      isPhoto = False,
      transitionType = None\<rparr>"

text \<open>The invisible hit sphere of the example photo, and a frame in which the ray meets it.\<close>

definition exampleHitMesh :: Object3D where
  "exampleHitMesh = Object3D 805 (Some (mesh examplePhoto))"

definition exampleFrame :: "Object3D list \<Rightarrow> Frame" where
  "exampleFrame hits =
     \<lparr>delta = 0.016, elapsed = 1, rayHits = hits, camPos = \<lparr>vx = 0, vy = 0, vz = 30\<rparr>\<rparr>"

text \<open>
  Frame times that halve from tick to tick, starting at a sixteenth of a second, and the
  frames that have them.
\<close>

definition halvingDeltas :: "nat \<Rightarrow> real" where
  "halvingDeltas n = (1 / 16) * (1 / 2) ^ n"

definition halvingFrames :: "nat \<Rightarrow> Frame" where
  "halvingFrames n = (exampleFrame [])\<lparr>delta := halvingDeltas n\<rparr>"

text \<open>Frames of 16 milliseconds each.\<close>

definition steadyFrames :: "nat \<Rightarrow> Frame" where
  "steadyFrames n = exampleFrame []"

text \<open>Where the example ornament is sent while another particle is in focus.\<close>

definition ornamentTarget :: Vector3 where
  "ornamentTarget = multiplyScalar (scatterPos exampleOrnament) 1.8"

definition sampleOf :: "Gesture \<Rightarrow> real \<Rightarrow> HandData" where
  "sampleOf g d = \<lparr>hx = 0.5, hy = 0.5, gesture = g, pinchDistance = d\<rparr>"

definition scatterState :: State where
  "scatterState = initialState\<lparr>particles := [exampleOrnament, examplePhoto]\<rparr>"

definition focusedState :: State where
  "focusedState =
     scatterState\<lparr>mode := FOCUS, focusTarget := Some (mesh examplePhoto),
                  handData := sampleOf PINCH 0.03\<rparr>"

text \<open>A hand of 21 landmarks, all at one point.\<close>

definition fistLandmarks :: "Landmark list" where
  "fistLandmarks = replicate 21 \<lparr>lx = 0.5, ly = 0.5, lz = 0\<rparr>"

text \<open>A decoder that knows five images of 4 by 3 pixels, and a batch with a corrupt file.\<close>

definition exampleDecode :: "string \<Rightarrow> (nat \<times> nat) option" where
  "exampleDecode url = (if url \<in> set [''a'', ''b'', ''c'', ''d'', ''e''] then Some (4, 3) else None)"

definition exampleBatch :: "string list" where
  "exampleBatch = [''a'', ''b'', ''corrupt'', ''c'', ''d'', ''e'']"

section \<open>The mode state machine\<close>

lemma onHandData_CLOSED:
  "gesture data = CLOSED \<Longrightarrow>
   onHandData st data = st\<lparr>handData := data, mode := TREE, focusTarget := None\<rparr>"
  by (simp add: onHandData_def Let_def)

lemma onHandData_PINCH:
  "gesture data = PINCH \<Longrightarrow> onHandData st data = st\<lparr>handData := data\<rparr>"
  by (simp add: onHandData_def Let_def)

lemma raycastingLogic_idle:
  "\<not> (gesture (handData st) = PINCH \<and> focusTarget st = None) \<Longrightarrow> raycastingLogic hits st = st"
  by (auto simp add: raycastingLogic_def)

lemma mode_animate:
  "mode (animate fr st) = mode (raycastingLogic (rayHits fr) st)"
  by (simp add: animate_def Let_def raycastingLogic_def split: list.splits option.splits)

lemma focusTarget_animate:
  "focusTarget (animate fr st) = focusTarget (raycastingLogic (rayHits fr) st)"
  by (simp add: animate_def Let_def raycastingLogic_def split: list.splits option.splits)

text \<open>
  C3: whatever the state before (any mode, focus target set or not) and whatever the other
  fields of the sample, a sample with gesture \<open>CLOSED\<close> leaves mode \<open>TREE\<close> and no focus
  target; so does any sequence of samples that ends with it, and the tick that follows does
  not change that.
\<close>

theorem closed_sample_gives_tree:
  assumes "gesture data = CLOSED"
  shows "mode (onHandData st data) = TREE \<and> focusTarget (onHandData st data) = None
       \<and> mode (foldl onHandData st (samples @ [data])) = TREE
       \<and> focusTarget (foldl onHandData st (samples @ [data])) = None
       \<and> mode (animate fr (onHandData st data)) = TREE
       \<and> focusTarget (animate fr (onHandData st data)) = None"
  using assms
  by (simp add: onHandData_CLOSED mode_animate focusTarget_animate raycastingLogic_idle)

theorem closed_sample_gives_tree_witness:
  "gesture (sampleOf CLOSED 0.03) = CLOSED
   \<and> mode focusedState = FOCUS
   \<and> mode (onHandData focusedState (sampleOf CLOSED 0.03)) = TREE
   \<and> focusTarget (onHandData focusedState (sampleOf CLOSED 0.03)) = None
   \<and> mode (foldl onHandData focusedState
              ([sampleOf OPEN 0.3, sampleOf PINCH 0.01] @ [sampleOf CLOSED 0.03])) = TREE"
proof -
  have h: "gesture (sampleOf CLOSED 0.03) = CLOSED" by (simp add: sampleOf_def)
  have m: "mode focusedState = FOCUS" by (simp add: focusedState_def)
  show ?thesis
    using h m closed_sample_gives_tree [OF h, where st = focusedState
        and samples = "[sampleOf OPEN 0.3, sampleOf PINCH 0.01]"]
    by simp
qed

text \<open>
  C4: a sample with gesture \<open>OPEN\<close> leaves mode and focus target as they are when the mode
  is \<open>FOCUS\<close> and the sample's pinch distance is at most 0.4, and otherwise gives mode
  \<open>SCATTER\<close> with no focus target. The witness runs the two samples of the claim from
  \<open>FOCUS\<close>: pinch distance 0.3 stays in \<open>FOCUS\<close>, 0.5 goes to \<open>SCATTER\<close>.
\<close>

theorem open_sample_rule:
  assumes "gesture data = OPEN"
  shows "(mode st = FOCUS \<and> pinchDistance data \<le> 0.4 \<longrightarrow>
            mode (onHandData st data) = FOCUS
          \<and> focusTarget (onHandData st data) = focusTarget st)
       \<and> (mode st \<noteq> FOCUS \<or> pinchDistance data > 0.4 \<longrightarrow>
            mode (onHandData st data) = SCATTER
          \<and> focusTarget (onHandData st data) = None)"
  using assms by (auto simp add: onHandData_def Let_def)

theorem open_sample_rule_witness:
  "gesture (sampleOf OPEN 0.3) = OPEN \<and> gesture (sampleOf OPEN 0.5) = OPEN
   \<and> mode focusedState = FOCUS
   \<and> mode (onHandData focusedState (sampleOf OPEN 0.3)) = FOCUS
   \<and> focusTarget (onHandData focusedState (sampleOf OPEN 0.3)) = Some (mesh examplePhoto)
   \<and> mode (onHandData focusedState (sampleOf OPEN 0.5)) = SCATTER
   \<and> focusTarget (onHandData focusedState (sampleOf OPEN 0.5)) = None"
proof -
  have h3: "gesture (sampleOf OPEN 0.3) = OPEN" and h5: "gesture (sampleOf OPEN 0.5) = OPEN"
    by (simp_all add: sampleOf_def)
  have m: "mode focusedState = FOCUS" "focusTarget focusedState = Some (mesh examplePhoto)"
    by (simp_all add: focusedState_def)
  have p3: "pinchDistance (sampleOf OPEN 0.3) \<le> 0.4"
    and p5: "pinchDistance (sampleOf OPEN 0.5) > 0.4"
    by (simp_all add: sampleOf_def)
  show ?thesis
    using h3 h5 m p3 p5 open_sample_rule [OF h3, of focusedState]
      open_sample_rule [OF h5, of focusedState]
    by simp
qed

text \<open>
  C6: with a focus target set, a further \<open>PINCH\<close> sample changes neither the mode nor the
  focus target, in the callback and in the tick after it, whatever the ray meets; and the
  hit test of the tick does nothing at all unless the gesture is \<open>PINCH\<close> and no focus
  target is set.
\<close>

theorem pinch_while_focused_is_idle:
  "(focusTarget st = Some t \<and> gesture data = PINCH \<longrightarrow>
        mode (onHandData st data) = mode st
      \<and> focusTarget (onHandData st data) = Some t
      \<and> raycastingLogic hits (onHandData st data) = onHandData st data
      \<and> mode (animate fr (onHandData st data)) = mode st
      \<and> focusTarget (animate fr (onHandData st data)) = Some t)
   \<and> (\<not> (gesture (handData st) = PINCH \<and> focusTarget st = None) \<longrightarrow>
        raycastingLogic hits st = st
      \<and> mode (animate fr st) = mode st
      \<and> focusTarget (animate fr st) = focusTarget st)"
  by (simp add: onHandData_PINCH mode_animate focusTarget_animate raycastingLogic_idle)

theorem pinch_while_focused_is_idle_witness:
  "focusTarget focusedState = Some (mesh examplePhoto) \<and> mode focusedState = FOCUS
   \<and> gesture (sampleOf PINCH 0.02) = PINCH
   \<and> mode (animate (exampleFrame [exampleHitMesh])
              (onHandData focusedState (sampleOf PINCH 0.02))) = FOCUS
   \<and> focusTarget (animate (exampleFrame [exampleHitMesh])
                     (onHandData focusedState (sampleOf PINCH 0.02)))
       = Some (mesh examplePhoto)"
proof -
  have f: "focusTarget focusedState = Some (mesh examplePhoto)" "mode focusedState = FOCUS"
    by (simp_all add: focusedState_def)
  have g: "gesture (sampleOf PINCH 0.02) = PINCH" by (simp add: sampleOf_def)
  show ?thesis
    using f g pinch_while_focused_is_idle [of focusedState "mesh examplePhoto"
        "sampleOf PINCH 0.02" "[exampleHitMesh]" "exampleFrame [exampleHitMesh]"]
    by simp
qed

section \<open>Reachable states keep focus target and mode together\<close>

lemma raycastingLogic_cases:
  "raycastingLogic hits st = st \<or>
   (\<exists>particle :: Particle. focusTarget st = None \<and> mode (raycastingLogic hits st) = FOCUS \<and>
      focusTarget (raycastingLogic hits st) = Some (mesh particle))"
proof (cases "gesture (handData st) = PINCH \<and> focusTarget st = None")
  case False
  then show ?thesis by (simp add: raycastingLogic_idle)
next
  case True
  show ?thesis
  proof (cases "intersectObjects hits (map mesh (filter isPhoto (particles st)))")
    case Nil
    with True show ?thesis by (simp add: raycastingLogic_def)
  next
    case (Cons ob rest)
    show ?thesis
    proof (cases "find (\<lambda>p. oid (mesh p) = oid (resolveRoot (particles st) ob)) (particles st)")
      case None
      with True Cons show ?thesis by (simp add: raycastingLogic_def)
    next
      case (Some particle)
      with True Cons have eq: "raycastingLogic hits st
          = st\<lparr>mode := FOCUS, focusTarget := Some (mesh particle)\<rparr>"
        by (simp add: raycastingLogic_def)
      have "focusTarget st = None \<and> mode (raycastingLogic hits st) = FOCUS \<and>
          focusTarget (raycastingLogic hits st) = Some (mesh particle)"
        using True by (simp add: eq)
      then show ?thesis by blast
    qed
  qed
qed

lemma mode_addPhoto: "mode (addPhoto rnd m st) = mode st"
  by (simp add: addPhoto_def Let_def split: list.splits option.splits)

lemma focusTarget_addPhoto: "focusTarget (addPhoto rnd m st) = focusTarget st"
  by (simp add: addPhoto_def Let_def split: list.splits option.splits)

lemma mode_ingestImage: "mode (ingestImage decode newId rnd imageUrl st) = mode st"
  by (simp add: ingestImage_def mode_addPhoto split: option.splits)

lemma focusTarget_ingestImage:
  "focusTarget (ingestImage decode newId rnd imageUrl st) = focusTarget st"
  by (simp add: ingestImage_def focusTarget_addPhoto split: option.splits)

lemma focus_iff_onHandData:
  "(focusTarget st \<noteq> None) = (mode st = FOCUS) \<Longrightarrow>
   (focusTarget (onHandData st data) \<noteq> None) = (mode (onHandData st data) = FOCUS)"
  by (auto simp add: onHandData_def Let_def)

lemma focus_iff_raycastingLogic:
  "(focusTarget st \<noteq> None) = (mode st = FOCUS) \<Longrightarrow>
   (focusTarget (raycastingLogic hits st) \<noteq> None) = (mode (raycastingLogic hits st) = FOCUS)"
  using raycastingLogic_cases [of hits st] by auto

lemma focus_iff_reachable:
  "reachable st \<Longrightarrow> (focusTarget st \<noteq> None) = (mode st = FOCUS)"
proof (induction rule: reachable.induct)
  case (mounted rnd)
  show ?case by (simp add: mountEffect_def initialState_def)
next
  case (sample st data)
  from sample.IH show ?case by (rule focus_iff_onHandData)
next
  case (tick st fr)
  from tick.IH show ?case
    by (simp only: mode_animate focusTarget_animate focus_iff_raycastingLogic)
next
  case (photo st decode newId rnd imageUrl)
  from photo.IH show ?case by (simp only: mode_ingestImage focusTarget_ingestImage)
qed

text \<open>
  C2: in every reachable state a focus target is set exactly when the mode is \<open>FOCUS\<close>.
  The property holds after mounting and every operation keeps it: the gesture callback on
  any sample, the hit test, the whole tick, and the ingestion of an image. Each operation
  is one step (the callbacks of the source run to completion one after the other), so a
  step that leaves \<open>FOCUS\<close> has cleared the focus target and a step that enters \<open>FOCUS\<close>
  has set it; only the tick enters \<open>FOCUS\<close>.
\<close>

theorem focus_target_iff_focus_mode:
  "(reachable st \<longrightarrow> (focusTarget st \<noteq> None) = (mode st = FOCUS))
   \<and> ((focusTarget st \<noteq> None) = (mode st = FOCUS) \<longrightarrow>
        (focusTarget (onHandData st data) \<noteq> None) = (mode (onHandData st data) = FOCUS)
      \<and> (focusTarget (raycastingLogic hits st) \<noteq> None)
          = (mode (raycastingLogic hits st) = FOCUS)
      \<and> (focusTarget (animate fr st) \<noteq> None) = (mode (animate fr st) = FOCUS)
      \<and> (focusTarget (ingestImage decode newId rnd imageUrl st) \<noteq> None)
          = (mode (ingestImage decode newId rnd imageUrl st) = FOCUS))
   \<and> (mode (onHandData st data) = FOCUS \<longrightarrow> mode st = FOCUS)
   \<and> (mode st = FOCUS \<and> mode (onHandData st data) \<noteq> FOCUS \<longrightarrow>
        focusTarget (onHandData st data) = None)
   \<and> (mode st \<noteq> FOCUS \<and> mode (animate fr st) = FOCUS \<longrightarrow>
        focusTarget (animate fr st) \<noteq> None)"
proof (intro conjI impI)
  assume "reachable st"
  then show "(focusTarget st \<noteq> None) = (mode st = FOCUS)" by (rule focus_iff_reachable)
next
  assume "(focusTarget st \<noteq> None) = (mode st = FOCUS)"
  then show "(focusTarget (onHandData st data) \<noteq> None) = (mode (onHandData st data) = FOCUS)"
    by (rule focus_iff_onHandData)
next
  assume "(focusTarget st \<noteq> None) = (mode st = FOCUS)"
  then show "(focusTarget (raycastingLogic hits st) \<noteq> None)
          = (mode (raycastingLogic hits st) = FOCUS)"
    by (rule focus_iff_raycastingLogic)
next
  assume "(focusTarget st \<noteq> None) = (mode st = FOCUS)"
  then show "(focusTarget (animate fr st) \<noteq> None) = (mode (animate fr st) = FOCUS)"
    by (simp only: mode_animate focusTarget_animate focus_iff_raycastingLogic)
next
  assume "(focusTarget st \<noteq> None) = (mode st = FOCUS)"
  then show "(focusTarget (ingestImage decode newId rnd imageUrl st) \<noteq> None)
          = (mode (ingestImage decode newId rnd imageUrl st) = FOCUS)"
    by (simp only: mode_ingestImage focusTarget_ingestImage)
next
  assume "mode (onHandData st data) = FOCUS"
  then show "mode st = FOCUS"
    by (auto simp add: onHandData_def Let_def split: if_splits)
next
  assume "mode st = FOCUS \<and> mode (onHandData st data) \<noteq> FOCUS"
  then show "focusTarget (onHandData st data) = None"
    by (auto simp add: onHandData_def Let_def split: if_splits)
next
  assume "mode st \<noteq> FOCUS \<and> mode (animate fr st) = FOCUS"
  then show "focusTarget (animate fr st) \<noteq> None"
    using raycastingLogic_cases [of "rayHits fr" st]
    by (auto simp add: mode_animate focusTarget_animate)
qed

lemma pinch_on_photo_focuses:
  "raycastingLogic [exampleHitMesh] (onHandData scatterState (sampleOf PINCH 0.02))
   = (onHandData scatterState (sampleOf PINCH 0.02))
       \<lparr>mode := FOCUS, focusTarget := Some (mesh examplePhoto)\<rparr>"
  by (simp add: raycastingLogic_def onHandData_def sampleOf_def scatterState_def
      initialState_def examplePhoto_def exampleOrnament_def exampleHitMesh_def
      intersectObjects_def mainGroup_def photoGroup_def scene_def Let_def)

theorem focus_target_iff_focus_mode_witness:
  "reachable (animate (exampleFrame [exampleHitMesh])
       (onHandData (mountEffect (\<lambda>k. 0) initialState) (sampleOf PINCH 0.02)))
   \<and> (focusTarget (animate (exampleFrame [exampleHitMesh])
         (onHandData (mountEffect (\<lambda>k. 0) initialState) (sampleOf PINCH 0.02))) \<noteq> None)
     = (mode (animate (exampleFrame [exampleHitMesh])
         (onHandData (mountEffect (\<lambda>k. 0) initialState) (sampleOf PINCH 0.02))) = FOCUS)
   \<and> (focusTarget (raycastingLogic [exampleHitMesh]
           (onHandData scatterState (sampleOf PINCH 0.02))) \<noteq> None)
     = (mode (raycastingLogic [exampleHitMesh]
           (onHandData scatterState (sampleOf PINCH 0.02))) = FOCUS)
   \<and> mode (raycastingLogic [exampleHitMesh]
           (onHandData scatterState (sampleOf PINCH 0.02))) = FOCUS"
proof -
  let ?X = "animate (exampleFrame [exampleHitMesh])
       (onHandData (mountEffect (\<lambda>k. 0) initialState) (sampleOf PINCH 0.02))"
  let ?s = "onHandData scatterState (sampleOf PINCH 0.02)"
  have r: "reachable ?X"
    by (intro reachable.tick reachable.sample reachable.mounted)
  have i: "(focusTarget ?s \<noteq> None) = (mode ?s = FOCUS)"
    by (simp add: onHandData_def sampleOf_def scatterState_def initialState_def Let_def)
  have m: "mode (raycastingLogic [exampleHitMesh] ?s) = FOCUS"
    using pinch_on_photo_focuses by simp
  show ?thesis
    using r i m focus_target_iff_focus_mode [of ?X]
      focus_target_iff_focus_mode [of ?s _ "[exampleHitMesh]"]
    by blast
qed

section \<open>Selection by pinch\<close>

lemma intersectObjects_photos:
  "intersectObjects hits (map mesh (filter isPhoto ps))
   = filter (\<lambda>h. \<exists>p \<in> set ps. isPhoto p \<and> oid (mesh p) \<in> set (ancestorsOrSelf h)) hits"
  unfolding intersectObjects_def by (rule filter_cong) auto

lemma raycastingLogic_no_intersection:
  "intersectObjects hits (map mesh (filter isPhoto (particles st))) = [] \<Longrightarrow>
   raycastingLogic hits st = st"
  by (simp add: raycastingLogic_def)

lemma particles_onHandData: "particles (onHandData st data) = particles st"
  by (simp add: onHandData_def Let_def)

lemma decorative_hits_miss:
  assumes "\<forall>h \<in> set hits. \<forall>p \<in> set (particles st).
             isPhoto p \<longrightarrow> oid (mesh p) \<notin> set (ancestorsOrSelf h)"
  shows "raycastingLogic hits st = st"
proof -
  have "intersectObjects hits (map mesh (filter isPhoto (particles st))) = []"
    using assms by (auto simp add: intersectObjects_photos filter_empty_conv)
  then show ?thesis by (rule raycastingLogic_no_intersection)
qed

text \<open>
  C5: the hit test of the tick sees only the objects of interactive particles: the ray's
  hits on anything else can be removed without changing its result. After a \<open>PINCH\<close>
  sample, a ray that meets no object of an interactive particle (only decorative
  particles, or nothing) leaves the state as the callback left it: mode and focus target
  are those from before the sample.
\<close>

theorem pinch_selects_photos_only:
  "raycastingLogic hits st
     = raycastingLogic
         (filter (\<lambda>h. \<exists>p \<in> set (particles st).
                    isPhoto p \<and> oid (mesh p) \<in> set (ancestorsOrSelf h)) hits) st
   \<and> (gesture data = PINCH
        \<and> (\<forall>h \<in> set (rayHits fr). \<forall>p \<in> set (particles st).
              isPhoto p \<longrightarrow> oid (mesh p) \<notin> set (ancestorsOrSelf h)) \<longrightarrow>
          raycastingLogic (rayHits fr) (onHandData st data) = onHandData st data
        \<and> mode (animate fr (onHandData st data)) = mode st
        \<and> focusTarget (animate fr (onHandData st data)) = focusTarget st)
   \<and> (gesture data = PINCH \<and> rayHits fr = [] \<longrightarrow>
          raycastingLogic (rayHits fr) (onHandData st data) = onHandData st data
        \<and> mode (animate fr (onHandData st data)) = mode st
        \<and> focusTarget (animate fr (onHandData st data)) = focusTarget st)"
proof (intro conjI impI)
  show "raycastingLogic hits st
     = raycastingLogic
         (filter (\<lambda>h. \<exists>p \<in> set (particles st).
                    isPhoto p \<and> oid (mesh p) \<in> set (ancestorsOrSelf h)) hits) st"
    by (simp add: raycastingLogic_def intersectObjects_photos)
next
  assume a: "gesture data = PINCH
        \<and> (\<forall>h \<in> set (rayHits fr). \<forall>p \<in> set (particles st).
              isPhoto p \<longrightarrow> oid (mesh p) \<notin> set (ancestorsOrSelf h))"
  then have idle: "raycastingLogic (rayHits fr) (onHandData st data) = onHandData st data"
    by (intro decorative_hits_miss) (simp add: particles_onHandData)
  from idle show "raycastingLogic (rayHits fr) (onHandData st data) = onHandData st data" .
  from a idle show "mode (animate fr (onHandData st data)) = mode st"
    by (simp add: mode_animate onHandData_PINCH)
  from a idle show "focusTarget (animate fr (onHandData st data)) = focusTarget st"
    by (simp add: focusTarget_animate onHandData_PINCH)
next
  assume a: "gesture data = PINCH \<and> rayHits fr = []"
  then have idle: "raycastingLogic (rayHits fr) (onHandData st data) = onHandData st data"
    by (intro decorative_hits_miss) simp
  from idle show "raycastingLogic (rayHits fr) (onHandData st data) = onHandData st data" .
  from a idle show "mode (animate fr (onHandData st data)) = mode st"
    by (simp add: mode_animate onHandData_PINCH)
  from a idle show "focusTarget (animate fr (onHandData st data)) = focusTarget st"
    by (simp add: focusTarget_animate onHandData_PINCH)
qed



theorem pinch_selects_photos_only_witness:
  "gesture (sampleOf PINCH 0.02) = PINCH
   \<and> rayHits (exampleFrame [mesh exampleOrnament]) = [mesh exampleOrnament]
   \<and> mode scatterState = SCATTER
   \<and> mode (animate (exampleFrame [mesh exampleOrnament])
              (onHandData scatterState (sampleOf PINCH 0.02))) = SCATTER
   \<and> focusTarget (animate (exampleFrame [mesh exampleOrnament])
              (onHandData scatterState (sampleOf PINCH 0.02))) = None
   \<and> mode (animate (exampleFrame []) (onHandData scatterState (sampleOf PINCH 0.02))) = SCATTER"
proof -
  have g: "gesture (sampleOf PINCH 0.02) = PINCH" by (simp add: sampleOf_def)
  have r: "rayHits (exampleFrame [mesh exampleOrnament]) = [mesh exampleOrnament]"
    and e: "rayHits (exampleFrame []) = []"
    by (simp_all add: exampleFrame_def)
  have s: "mode scatterState = SCATTER" "focusTarget scatterState = None"
    by (simp_all add: scatterState_def initialState_def)
  have "\<forall>h \<in> set [mesh exampleOrnament]. \<forall>p \<in> set (particles scatterState).
               isPhoto p \<longrightarrow> oid (mesh p) \<notin> set (ancestorsOrSelf h)"
    by (simp add: scatterState_def initialState_def examplePhoto_def
        exampleOrnament_def mainGroup_def scene_def)
  then have d: "\<forall>h \<in> set (rayHits (exampleFrame [mesh exampleOrnament])).
             \<forall>p \<in> set (particles scatterState).
               isPhoto p \<longrightarrow> oid (mesh p) \<notin> set (ancestorsOrSelf h)"
    by (simp only: r)
  have c1: "mode (animate (exampleFrame [mesh exampleOrnament])
              (onHandData scatterState (sampleOf PINCH 0.02))) = mode scatterState
          \<and> focusTarget (animate (exampleFrame [mesh exampleOrnament])
              (onHandData scatterState (sampleOf PINCH 0.02))) = focusTarget scatterState"
    using g d pinch_selects_photos_only [of "[]" scatterState "sampleOf PINCH 0.02"
        "exampleFrame [mesh exampleOrnament]"]
    by blast
  have c2: "mode (animate (exampleFrame []) (onHandData scatterState (sampleOf PINCH 0.02)))
          = mode scatterState"
    using g e pinch_selects_photos_only [of "[]" scatterState "sampleOf PINCH 0.02"
        "exampleFrame []"]
    by blast
  show ?thesis
    using g r c1 c2 by (simp only: s simp_thms)
qed

section \<open>The scale of the focus target\<close>

lemma targetScale_focus:
  "isFocusTarget ft p \<Longrightarrow>
   snd (particleTarget fr FOCUS ft pinchVal p i) = 5 + 12 * max 0 (min 0.4 pinchVal)"
  by (simp add: particleTarget_def clamp_def Let_def)

text \<open>
  C1 as it is written fails on the code: the focus target's scale does not start from its
  base scale and the boost at full aperture is not 12 units. For a photo particle (base
  scale 1) at smoothed pinch distance 0.4 the target scale is 9.8, not 13, and at 0 it is
  5, not 1.
\<close>

theorem focus_scale_counterexample:
  "isFocusTarget (Some (mesh examplePhoto)) examplePhoto
   \<and> snd (particleTarget (exampleFrame []) FOCUS (Some (mesh examplePhoto)) 0.4 examplePhoto 1)
       = 9.8
   \<and> baseScale examplePhoto + 12 = 13
   \<and> snd (particleTarget (exampleFrame []) FOCUS (Some (mesh examplePhoto)) 0.4 examplePhoto 1)
       \<noteq> baseScale examplePhoto + 12
   \<and> snd (particleTarget (exampleFrame []) FOCUS (Some (mesh examplePhoto)) 0 examplePhoto 1)
       \<noteq> baseScale examplePhoto + 0"
  by (simp add: particleTarget_def clamp_def isFocusTarget_def examplePhoto_def Let_def)

text \<open>
  C1, amended: in \<open>FOCUS\<close> mode the target scale of the focus target is the constant 5 plus
  12 times the smoothed pinch distance clamped to \<open>[0, 0.4]\<close>, whatever the base scale of
  the particle: 5 at smoothed pinch distance 0 or below, linear in between, and 9.8 (a
  boost of 4.8) at 0.4 or above. The tick moves the scale towards that value.
\<close>

theorem focus_target_scale:
  assumes "isFocusTarget ft p"
  shows "snd (particleTarget fr FOCUS ft pinchVal p i) = 5 + 12 * max 0 (min 0.4 pinchVal)
       \<and> (pinchVal \<le> 0 \<longrightarrow> snd (particleTarget fr FOCUS ft pinchVal p i) = 5)
       \<and> (0 \<le> pinchVal \<and> pinchVal \<le> 0.4 \<longrightarrow>
            snd (particleTarget fr FOCUS ft pinchVal p i) = 5 + 12 * pinchVal)
       \<and> (0.4 \<le> pinchVal \<longrightarrow> snd (particleTarget fr FOCUS ft pinchVal p i) = 9.8)
       \<and> scale (updateParticle fr FOCUS ft pinchVal (p, i))
           = lerp (scale p) (5 + 12 * max 0 (min 0.4 pinchVal)) (5 * delta fr)"
proof -
  have t: "snd (particleTarget fr FOCUS ft pinchVal p i) = 5 + 12 * max 0 (min 0.4 pinchVal)"
    using assms by (rule targetScale_focus)
  have u: "scale (updateParticle fr FOCUS ft pinchVal (p, i))
      = lerp (scale p) (snd (particleTarget fr FOCUS ft pinchVal p i)) (5 * delta fr)"
    by (simp add: updateParticle_def Let_def split: prod.splits)
  show ?thesis
    unfolding u t by (auto simp add: max_def min_def)
qed

theorem focus_target_scale_witness:
  "isFocusTarget (Some (mesh examplePhoto)) examplePhoto
   \<and> snd (particleTarget (exampleFrame []) FOCUS (Some (mesh examplePhoto)) 0 examplePhoto 1) = 5
   \<and> snd (particleTarget (exampleFrame []) FOCUS (Some (mesh examplePhoto)) 0.2 examplePhoto 1)
       = 7.4
   \<and> snd (particleTarget (exampleFrame []) FOCUS (Some (mesh examplePhoto)) 0.4 examplePhoto 1)
       = 9.8
   \<and> snd (particleTarget (exampleFrame []) FOCUS (Some (mesh examplePhoto)) 0.7 examplePhoto 1)
       = 9.8"
proof -
  have f: "isFocusTarget (Some (mesh examplePhoto)) examplePhoto"
    by (simp add: isFocusTarget_def)
  show ?thesis
    using f focus_target_scale [OF f, of "exampleFrame []" 0 1]
      focus_target_scale [OF f, of "exampleFrame []" "0.2" 1]
      focus_target_scale [OF f, of "exampleFrame []" "0.4" 1]
      focus_target_scale [OF f, of "exampleFrame []" "0.7" 1]
    by simp
qed



section \<open>The display rectangle of a photo\<close>

text \<open>
  C8 as it is written fails on the code: for an image of 1600 by 800 pixels (aspect ratio
  2) the rectangle is 3 by 1.5, so the short side is 1.5, not 3, and the long side is 3,
  not 6.
\<close>

theorem photo_size_counterexample:
  "photoSize 1600 800 = (3, 3 / 2)
   \<and> min (fst (photoSize 1600 800)) (snd (photoSize 1600 800)) \<noteq> 3
   \<and> max (fst (photoSize 1600 800)) (snd (photoSize 1600 800))
       \<noteq> 3 * max (1600 / 800) (1 / (1600 / 800))"
  by (simp add: photoSize_def Let_def)

lemma photoSize_portrait:
  "real width / real height < 1 \<Longrightarrow>
   photoSize width height = (3 * (real width / real height), 3)"
  by (simp add: photoSize_def Let_def)

lemma photoSize_landscape:
  "\<not> real width / real height < 1 \<Longrightarrow>
   photoSize width height = (3, 3 / (real width / real height))"
  by (simp add: photoSize_def Let_def)

lemma fit_portrait:
  fixes a :: real
  assumes "0 < a" "a < 1"
  shows "max (3 * a) 3 = 3 \<and> min (3 * a) 3 = 3 * min a (1 / a) \<and> 3 * a / 3 = a"
proof -
  have "1 < 1 / a" using assms by simp
  then have "a \<le> 1 / a" using assms by linarith
  then have m: "min a (1 / a) = a" by (rule min_absorb1)
  have "3 * a \<le> 3" using assms by linarith
  then have "min (3 * a) 3 = 3 * a" "max (3 * a) 3 = 3"
    by (rule min_absorb1, rule max_absorb2)
  then show ?thesis by (simp only: m) simp
qed

lemma fit_landscape:
  fixes a :: real
  assumes "0 < a" "\<not> a < 1"
  shows "max 3 (3 / a) = 3 \<and> min 3 (3 / a) = 3 * min a (1 / a) \<and> 3 / (3 / a) = a"
proof -
  have l: "1 / a \<le> 1" using assms by simp
  then have "1 / a \<le> a" using assms by linarith
  then have m: "min a (1 / a) = 1 / a" by (rule min_absorb2)
  have t: "3 / a = 3 * (1 / a)" by simp
  have "3 * (1 / a) \<le> 3" using l by linarith
  then have "3 / a \<le> 3" by (simp only: t)
  then have "min 3 (3 / a) = 3 / a" "max 3 (3 / a) = 3"
    by (rule min_absorb2, rule max_absorb1)
  moreover have "3 / (3 / a) = a" using assms by simp
  ultimately show ?thesis by (simp only: m) simp
qed

text \<open>
  C8, amended: for an image of positive width and height with aspect ratio \<open>a\<close>, the
  rectangle of its photo particle has long side exactly 3 and short side 3 times
  \<open>min a (1 / a)\<close>, and its width over its height is \<open>a\<close>.
\<close>

theorem photo_rectangle_long_side_three:
  assumes "0 < width" "0 < height"
  shows "planeSize (onload newId rnd width height) = photoSize width height
       \<and> max (fst (photoSize width height)) (snd (photoSize width height)) = 3
       \<and> min (fst (photoSize width height)) (snd (photoSize width height))
           = 3 * min (real width / real height) (1 / (real width / real height))
       \<and> fst (photoSize width height) / snd (photoSize width height)
           = real width / real height"
proof -
  have a: "0 < real width / real height" using assms by simp
  have p: "planeSize (onload newId rnd width height) = photoSize width height"
    by (simp add: onload_def Let_def split: prod.splits)
  have "max (fst (photoSize width height)) (snd (photoSize width height)) = 3
       \<and> min (fst (photoSize width height)) (snd (photoSize width height))
           = 3 * min (real width / real height) (1 / (real width / real height))
       \<and> fst (photoSize width height) / snd (photoSize width height)
           = real width / real height"
  proof (cases "real width / real height < 1")
    case True
    show ?thesis
      unfolding photoSize_portrait [OF True] fst_conv snd_conv
      by (rule fit_portrait [OF a True])
  next
    case False
    show ?thesis
      unfolding photoSize_landscape [OF False] fst_conv snd_conv
      by (rule fit_landscape [OF a False])
  qed
  with p show ?thesis by (rule conjI)
qed

theorem photo_rectangle_long_side_three_witness:
  "(0::nat) < 1600 \<and> (0::nat) < 800
   \<and> max (fst (photoSize 1600 800)) (snd (photoSize 1600 800)) = 3
   \<and> min (fst (photoSize 1600 800)) (snd (photoSize 1600 800)) = 3 / 2
   \<and> max (fst (photoSize 600 800)) (snd (photoSize 600 800)) = 3
   \<and> min (fst (photoSize 600 800)) (snd (photoSize 600 800)) = 9 / 4"
proof -
  have h: "(0::nat) < 1600" "(0::nat) < 800" "(0::nat) < 600" by simp_all
  show ?thesis
    using photo_rectangle_long_side_three [OF h(1) h(2)]
      photo_rectangle_long_side_three [OF h(3) h(2)]
    by (simp add: min_def)
qed

section \<open>Gesture classification\<close>

lemma hypot_sqrt: "hypot a b = sqrt (a\<^sup>2 + b\<^sup>2)"
  by (simp add: hypot_def power2_eq_square)

lemma foldedCount_card:
  "length (filter Q [lm ! 8, lm ! 12, lm ! 16, lm ! 20])
   = card {i \<in> {8, 12, 16, 20}. Q (lm ! i)}"
proof -
  have d: "distinct [8, 12, 16, 20 :: nat]" by simp
  have "[lm ! 8, lm ! 12, lm ! 16, lm ! 20] = map (\<lambda>i. lm ! i) [8, 12, 16, 20]" by simp
  then have "length (filter Q [lm ! 8, lm ! 12, lm ! 16, lm ! 20])
      = length (filter (\<lambda>i. Q (lm ! i)) [8, 12, 16, 20])"
    by (simp only: filter_map length_map comp_def)
  also have "\<dots> = card ({i. Q (lm ! i)} \<inter> set [8, 12, 16, 20])"
    using d by (rule distinct_length_filter)
  also have "{i. Q (lm ! i)} \<inter> set [8, 12, 16, 20] = {i \<in> {8, 12, 16, 20}. Q (lm ! i)}"
    by auto
  finally show ?thesis .
qed

lemma processResult_hand:
  assumes "21 \<le> length lm"
  shows "processResult (Some (lm # others)) =
     Inr \<lparr>hx = 1 - lx (lm ! 8), hy = ly (lm ! 8),
          gesture =
            (if 3 \<le> card {i \<in> {8, 12, 16, 20}.
                       sqrt ((lx (lm ! i) - lx (lm ! 0))\<^sup>2 + (ly (lm ! i) - ly (lm ! 0))\<^sup>2) < 0.15}
             then CLOSED
             else if sqrt ((lx (lm ! 8) - lx (lm ! 4))\<^sup>2 + (ly (lm ! 8) - ly (lm ! 4))\<^sup>2) < 0.05
             then PINCH else OPEN),
          pinchDistance = sqrt ((lx (lm ! 8) - lx (lm ! 4))\<^sup>2 + (ly (lm ! 8) - ly (lm ! 4))\<^sup>2)\<rparr>"
proof -
  have n: "\<not> length lm < 21" using assms by simp
  have c: "length (filter (\<lambda>f. sqrt ((lx f - lx (lm ! 0))\<^sup>2 + (ly f - ly (lm ! 0))\<^sup>2) < 0.15)
              [lm ! 8, lm ! 12, lm ! 16, lm ! 20])
      = card {i \<in> {8, 12, 16, 20}.
           sqrt ((lx (lm ! i) - lx (lm ! 0))\<^sup>2 + (ly (lm ! i) - ly (lm ! 0))\<^sup>2) < 0.15}"
    by (rule foldedCount_card)
  show ?thesis
    unfolding processResult_def option.case list.case Let_def if_not_P [OF n] hypot_sqrt
    unfolding c by (rule refl)
qed

text \<open>
  C10: with no hand in the frame the sample is the neutral one (\<open>x = 0.5\<close>, \<open>y = 0.5\<close>,
  gesture \<open>NONE\<close>, pinch distance 1). With a hand of 21 landmarks a sample is emitted whose
  gesture is \<open>CLOSED\<close> exactly when at least 3 of the fingertips 8, 12, 16, 20 are at a
  distance below 0.15 from the wrist (landmark 0), whatever the pinch distance; \<open>PINCH\<close>
  exactly when it is not \<open>CLOSED\<close> and the distance from thumb tip (4) to index tip (8) is
  below 0.05; \<open>OPEN\<close> otherwise; and never \<open>NONE\<close>. "Within 0.15" is the strict
  comparison of the source. The witness is a hand with all landmarks at one point: pinch
  distance 0, and the gesture is \<open>CLOSED\<close>, not \<open>PINCH\<close>.
\<close>

theorem gesture_classification:
  "processResult None = Inr neutralSample
   \<and> processResult (Some []) = Inr neutralSample
   \<and> hx neutralSample = 0.5 \<and> hy neutralSample = 0.5
   \<and> gesture neutralSample = NONE \<and> pinchDistance neutralSample = 1
   \<and> (21 \<le> length lm \<longrightarrow>
        (\<exists>d. processResult (Some (lm # others)) = Inr d
           \<and> pinchDistance d
               = sqrt ((lx (lm ! 8) - lx (lm ! 4))\<^sup>2 + (ly (lm ! 8) - ly (lm ! 4))\<^sup>2)
           \<and> (gesture d = CLOSED) =
               (3 \<le> card {i \<in> {8, 12, 16, 20}.
                  sqrt ((lx (lm ! i) - lx (lm ! 0))\<^sup>2 + (ly (lm ! i) - ly (lm ! 0))\<^sup>2) < 0.15})
           \<and> (gesture d = PINCH) =
               (\<not> 3 \<le> card {i \<in> {8, 12, 16, 20}.
                  sqrt ((lx (lm ! i) - lx (lm ! 0))\<^sup>2 + (ly (lm ! i) - ly (lm ! 0))\<^sup>2) < 0.15}
                \<and> pinchDistance d < 0.05)
           \<and> (gesture d = OPEN) =
               (\<not> 3 \<le> card {i \<in> {8, 12, 16, 20}.
                  sqrt ((lx (lm ! i) - lx (lm ! 0))\<^sup>2 + (ly (lm ! i) - ly (lm ! 0))\<^sup>2) < 0.15}
                \<and> \<not> pinchDistance d < 0.05)
           \<and> gesture d \<noteq> NONE))"
proof (intro conjI impI)
  assume l: "21 \<le> length lm"
  show "\<exists>d. processResult (Some (lm # others)) = Inr d
           \<and> pinchDistance d
               = sqrt ((lx (lm ! 8) - lx (lm ! 4))\<^sup>2 + (ly (lm ! 8) - ly (lm ! 4))\<^sup>2)
           \<and> (gesture d = CLOSED) =
               (3 \<le> card {i \<in> {8, 12, 16, 20}.
                  sqrt ((lx (lm ! i) - lx (lm ! 0))\<^sup>2 + (ly (lm ! i) - ly (lm ! 0))\<^sup>2) < 0.15})
           \<and> (gesture d = PINCH) =
               (\<not> 3 \<le> card {i \<in> {8, 12, 16, 20}.
                  sqrt ((lx (lm ! i) - lx (lm ! 0))\<^sup>2 + (ly (lm ! i) - ly (lm ! 0))\<^sup>2) < 0.15}
                \<and> pinchDistance d < 0.05)
           \<and> (gesture d = OPEN) =
               (\<not> 3 \<le> card {i \<in> {8, 12, 16, 20}.
                  sqrt ((lx (lm ! i) - lx (lm ! 0))\<^sup>2 + (ly (lm ! i) - ly (lm ! 0))\<^sup>2) < 0.15}
                \<and> \<not> pinchDistance d < 0.05)
           \<and> gesture d \<noteq> NONE"
    unfolding processResult_hand [OF l] by (intro exI conjI, rule refl) simp_all
qed (simp_all add: processResult_def neutralSample_def)

theorem gesture_classification_witness:
  "21 \<le> length fistLandmarks
   \<and> (\<exists>d. processResult (Some [fistLandmarks]) = Inr d \<and> gesture d \<noteq> NONE)
   \<and> processResult (Some [fistLandmarks])
       = Inr \<lparr>hx = 0.5, hy = 0.5, gesture = CLOSED, pinchDistance = 0\<rparr>
   \<and> processResult (Some []) = Inr \<lparr>hx = 0.5, hy = 0.5, gesture = NONE, pinchDistance = 1\<rparr>"
proof -
  have l: "21 \<le> length fistLandmarks" by (simp add: fistLandmarks_def)
  have e: "\<exists>d. processResult (Some [fistLandmarks]) = Inr d \<and> gesture d \<noteq> NONE"
    using l gesture_classification [of fistLandmarks "[]"] by blast
  have n: "processResult (Some []) = Inr \<lparr>hx = 0.5, hy = 0.5, gesture = NONE, pinchDistance = 1\<rparr>"
    using gesture_classification [of fistLandmarks "[]"] by (simp add: neutralSample_def)
  have c: "processResult (Some [fistLandmarks])
       = Inr \<lparr>hx = 0.5, hy = 0.5, gesture = CLOSED, pinchDistance = 0\<rparr>"
    by (simp add: processResult_def fistLandmarks_def hypot_def Let_def)
  from l e c n show ?thesis by blast
qed

section \<open>Interpolation towards a constant target\<close>

lemma positionError_nonneg: "0 \<le> positionError target current"
  by (simp add: positionError_def)

lemma positionError_lerpV:
  "positionError target (lerpV current target k) = \<bar>1 - k\<bar> * positionError target current"
proof -
  have c: "\<And>t c :: real. t - (c + (t - c) * k) = (1 - k) * (t - c)"
    by (simp add: algebra_simps)
  have "(vx target - vx (lerpV current target k))\<^sup>2
        + (vy target - vy (lerpV current target k))\<^sup>2
        + (vz target - vz (lerpV current target k))\<^sup>2
      = (1 - k)\<^sup>2 * ((vx target - vx current)\<^sup>2 + (vy target - vy current)\<^sup>2
           + (vz target - vz current)\<^sup>2)"
    by (simp add: lerpV_def c power_mult_distrib distrib_left)
  then show ?thesis
    by (simp only: positionError_def real_sqrt_mult real_sqrt_abs)
qed

lemma positionError_step:
  assumes "0 < k" "k \<le> 1"
  shows "positionError target (lerpV current target k) = (1 - k) * positionError target current"
  using assms by (simp add: positionError_lerpV)

lemma updateParticle_position:
  "position (updateParticle fr m ft pinchVal (p, i))
   = lerpV (position p) (fst (particleTarget fr m ft pinchVal p i)) (lerpSpeed p * delta fr)"
  by (simp add: updateParticle_def Let_def split: prod.splits)

lemma advance_on_segment:
  assumes "\<forall>n. 0 < rate * dt n \<and> rate * dt n \<le> 1"
  shows "\<exists>s. 0 \<le> s \<and> s \<le> 1
     \<and> vx (advance rate dt target n current) = vx target + s * (vx current - vx target)
     \<and> vy (advance rate dt target n current) = vy target + s * (vy current - vy target)
     \<and> vz (advance rate dt target n current) = vz target + s * (vz current - vz target)"
proof (induction n)
  case 0
  have "0 \<le> (1::real) \<and> (1::real) \<le> 1
     \<and> vx (advance rate dt target 0 current) = vx target + 1 * (vx current - vx target)
     \<and> vy (advance rate dt target 0 current) = vy target + 1 * (vy current - vy target)
     \<and> vz (advance rate dt target 0 current) = vz target + 1 * (vz current - vz target)"
    by simp
  then show ?case by blast
next
  case (Suc n)
  then obtain s where s: "0 \<le> s" "s \<le> 1"
     "vx (advance rate dt target n current) = vx target + s * (vx current - vx target)"
     "vy (advance rate dt target n current) = vy target + s * (vy current - vy target)"
     "vz (advance rate dt target n current) = vz target + s * (vz current - vz target)"
    by blast
  define k where "k = rate * dt n"
  have k: "0 < k" "k \<le> 1" using assms by (simp_all add: k_def)
  have b: "0 \<le> (1 - k) * s" "(1 - k) * s \<le> 1"
  proof -
    show "0 \<le> (1 - k) * s" using k s by simp
    have "(1 - k) * s \<le> 1 * 1" using k s by (intro mult_mono) simp_all
    then show "(1 - k) * s \<le> 1" by simp
  qed
  have "vx (advance rate dt target (Suc n) current)
          = vx target + ((1 - k) * s) * (vx current - vx target)
     \<and> vy (advance rate dt target (Suc n) current)
          = vy target + ((1 - k) * s) * (vy current - vy target)
     \<and> vz (advance rate dt target (Suc n) current)
          = vz target + ((1 - k) * s) * (vz current - vz target)"
    by (simp add: lerpV_def s(3-5) k_def [symmetric] algebra_simps)
  with b show ?case by blast
qed

lemma advance_error_bound:
  assumes "\<forall>n. 0 < rate * dt n \<and> rate * dt n \<le> 1" and "\<forall>n. d \<le> rate * dt n"
  shows "positionError target (advance rate dt target n current)
         \<le> (1 - d) ^ n * positionError target current"
proof (induction n)
  case 0
  show ?case by simp
next
  case (Suc n)
  define k where "k = rate * dt n"
  have k: "0 < k" "k \<le> 1" "d \<le> k" using assms by (simp_all add: k_def)
  have "positionError target (advance rate dt target (Suc n) current)
      = (1 - k) * positionError target (advance rate dt target n current)"
    using positionError_step [OF k(1) k(2)] by (simp add: k_def)
  also have "\<dots> \<le> (1 - d) * positionError target (advance rate dt target n current)"
    using k by (intro mult_right_mono positionError_nonneg) simp
  also have "\<dots> \<le> (1 - d) * ((1 - d) ^ n * positionError target current)"
    using k Suc.IH by (intro mult_left_mono) simp_all
  finally show ?case by (simp add: mult.assoc)
qed

lemma advance_error_properties:
  assumes "\<forall>n. 0 < rate * dt n \<and> rate * dt n \<le> 1"
  shows "positionError target (advance rate dt target (Suc n) current)
           \<le> positionError target (advance rate dt target n current)
       \<and> (positionError target (advance rate dt target n current) \<noteq> 0 \<longrightarrow>
            positionError target (advance rate dt target (Suc n) current)
            < positionError target (advance rate dt target n current))
       \<and> positionError target (advance rate dt target n current)
           \<le> positionError target current
       \<and> (\<exists>s. 0 \<le> s \<and> s \<le> 1
            \<and> vx (advance rate dt target n current) = vx target + s * (vx current - vx target)
            \<and> vy (advance rate dt target n current) = vy target + s * (vy current - vy target)
            \<and> vz (advance rate dt target n current) = vz target + s * (vz current - vz target))
       \<and> ((\<exists>d > 0. \<forall>j. d \<le> rate * dt j) \<longrightarrow>
            (\<lambda>j. positionError target (advance rate dt target j current)) \<longlonglongrightarrow> 0)"
proof -
  let ?e = "\<lambda>j. positionError target (advance rate dt target j current)"
  have step: "?e (Suc j) = (1 - rate * dt j) * ?e j" for j
    using assms positionError_step [of "rate * dt j"] by simp
  have mono: "?e (Suc j) \<le> ?e j" for j
  proof -
    have "(1 - rate * dt j) * ?e j \<le> 1 * ?e j"
      using assms by (intro mult_right_mono positionError_nonneg) (simp add: less_imp_le)
    then show ?thesis unfolding step by simp
  qed
  have strict: "?e (Suc n) < ?e n" if "?e n \<noteq> 0"
  proof -
    have pos: "0 < ?e n" using that positionError_nonneg [of target] by (simp add: less_le)
    have "(1 - rate * dt n) * ?e n < 1 * ?e n"
      using assms pos by (intro mult_strict_right_mono) simp_all
    then show ?thesis unfolding step by simp
  qed
  have bounded: "?e n \<le> ?e 0"
  proof (induction n)
    case 0
    show ?case by simp
  next
    case (Suc n)
    with mono [of n] show ?case by linarith
  qed
  have conv: "?e \<longlonglongrightarrow> 0" if "\<exists>d > 0. \<forall>j. d \<le> rate * dt j"
  proof -
    from that obtain d where d: "0 < d" "\<forall>j. d \<le> rate * dt j" by blast
    have d1: "d \<le> 1" using d(2) assms by (meson order_trans)
    have "(\<lambda>j. (1 - d) ^ j) \<longlonglongrightarrow> 0"
      using d(1) d1 by (intro LIMSEQ_realpow_zero) simp_all
    then have "(\<lambda>j. (1 - d) ^ j * positionError target current) \<longlonglongrightarrow> 0 * positionError target current"
      by (intro tendsto_mult tendsto_const)
    then have up: "(\<lambda>j. (1 - d) ^ j * positionError target current) \<longlonglongrightarrow> 0" by simp
    show ?thesis
    proof (rule tendsto_sandwich [OF _ _ tendsto_const up])
      show "\<forall>\<^sub>F j in sequentially. 0 \<le> ?e j"
        by (simp add: positionError_nonneg)
      show "\<forall>\<^sub>F j in sequentially. ?e j \<le> (1 - d) ^ j * positionError target current"
        using advance_error_bound [OF assms d(2)] by simp
    qed
  qed
  show ?thesis
    using mono [of n] strict bounded advance_on_segment [OF assms] conv
    by simp
qed


section \<open>Photo ingestion keeps going past a bad image\<close>

lemma particles_raycastingLogic: "particles (raycastingLogic hits st) = particles st"
  by (simp add: raycastingLogic_def Let_def split: list.splits option.splits)

lemma mesh_updateParticle: "mesh (updateParticle fr m ft pinchVal (p, i)) = mesh p"
  by (simp add: updateParticle_def Let_def split: prod.splits)

lemma particles_animate_head:
  assumes "particles st = p0 # ps"
  shows "\<exists>q qs. particles (animate fr st) = q # qs \<and> mesh q = mesh p0"
proof -
  have u: "[0 ..< Suc (length ps)] = 0 # [Suc 0 ..< Suc (length ps)]"
    by (rule upt_conv_Cons) simp
  have z: "zip (p0 # ps) [0 ..< Suc (length ps)] = (p0, 0) # zip ps [Suc 0 ..< Suc (length ps)]"
    by (simp only: u zip_Cons_Cons)
  show ?thesis
    by (simp add: animate_def Let_def particles_raycastingLogic assms z mesh_updateParticle
        del: upt_Suc)
qed

lemma particles_mountEffect_head:
  "\<exists>q qs. particles (mountEffect rnd st) = q # qs \<and> parent (mesh q) = Some mainGroup"
proof -
  have "[0 ..< count CONFIG_particles] = 0 # [Suc 0 ..< count CONFIG_particles]"
    by (rule upt_conv_Cons) (simp add: CONFIG_particles_def)
  then show ?thesis
    by (simp add: mountEffect_def createParticle_def Let_def)
qed

lemma addPhoto_appends:
  assumes "particles st = p0 # ps" "parent (mesh p0) = Some par"
  shows "\<exists>q. particles (addPhoto rnd m st) = particles st @ [q] \<and> isPhoto q \<and> ptype q = PHOTO"
  using assms by (simp add: addPhoto_def Let_def)

lemma ingestImage_appends:
  assumes "particles st = p0 # ps" "parent (mesh p0) = Some par"
  shows "\<exists>new. particles (ingestImage decode newId rnd imageUrl st) = particles st @ new
           \<and> length new = (if decode imageUrl = None then 0 else 1)
           \<and> (\<forall>q \<in> set new. isPhoto q \<and> ptype q = PHOTO)"
proof (cases "decode imageUrl")
  case None
  then show ?thesis by (simp add: ingestImage_def)
next
  case (Some wh)
  obtain w h where wh: "wh = (w, h)" by (cases wh)
  obtain q where "particles (addPhoto (\<lambda>j. rnd (3 + j)) (onload newId rnd w h) st)
      = particles st @ [q]" "isPhoto q" "ptype q = PHOTO"
    using addPhoto_appends [OF assms] by blast
  then have "particles (ingestImage decode newId rnd imageUrl st) = particles st @ [q]
           \<and> length [q] = (if decode imageUrl = None then 0 else 1)
           \<and> (\<forall>q \<in> set [q]. isPhoto q \<and> ptype q = PHOTO)"
    by (simp add: ingestImage_def Some wh)
  then show ?thesis by blast
qed

lemma ready_reachable:
  "reachable st \<Longrightarrow> \<exists>p0 ps par. particles st = p0 # ps \<and> parent (mesh p0) = Some par"
proof (induction rule: reachable.induct)
  case (mounted rnd)
  show ?case using particles_mountEffect_head [of rnd initialState] by blast
next
  case (sample st data)
  from sample.IH show ?case by (simp add: onHandData_def Let_def)
next
  case (tick st fr)
  from tick.IH obtain p0 ps par where p: "particles st = p0 # ps" "parent (mesh p0) = Some par"
    by blast
  from particles_animate_head [OF p(1), of fr] p(2) show ?case by force
next
  case (photo st decode newId rnd imageUrl)
  from photo.IH obtain p0 ps par where p: "particles st = p0 # ps" "parent (mesh p0) = Some par"
    by blast
  from ingestImage_appends [OF p, of decode newId rnd imageUrl] obtain new
    where "particles (ingestImage decode newId rnd imageUrl st) = (p0 # ps) @ new"
    using p(1) by auto
  with p(2) show ?case by simp
qed

lemma fold_ingestImage_appends:
  assumes "particles st = p0 # ps" "parent (mesh p0) = Some par"
  shows "\<exists>new. particles (fold (\<lambda>ki. ingestImage decode (newId (fst ki)) (rnd (fst ki)) (snd ki))
                    kis st) = particles st @ new
           \<and> length new = length (filter (\<lambda>url. decode url \<noteq> None) (map snd kis))
           \<and> (\<forall>q \<in> set new. isPhoto q \<and> ptype q = PHOTO)"
  using assms
proof (induction kis arbitrary: st ps)
  case Nil
  show ?case by simp
next
  case (Cons ki kis)
  let ?st1 = "ingestImage decode (newId (fst ki)) (rnd (fst ki)) (snd ki) st"
  from ingestImage_appends [OF Cons.prems, of decode "newId (fst ki)" "rnd (fst ki)" "snd ki"]
  obtain new1 where n1: "particles ?st1 = particles st @ new1"
      "length new1 = (if decode (snd ki) = None then 0 else 1)"
      "\<forall>q \<in> set new1. isPhoto q \<and> ptype q = PHOTO"
    by blast
  have h: "particles ?st1 = p0 # (ps @ new1)" using n1(1) Cons.prems(1) by simp
  from Cons.IH [OF h Cons.prems(2)]
  obtain new2 where n2:
      "particles (fold (\<lambda>ki. ingestImage decode (newId (fst ki)) (rnd (fst ki)) (snd ki)) kis ?st1)
         = particles ?st1 @ new2"
      "length new2 = length (filter (\<lambda>url. decode url \<noteq> None) (map snd kis))"
      "\<forall>q \<in> set new2. isPhoto q \<and> ptype q = PHOTO"
    by blast
  have "particles (fold (\<lambda>ki. ingestImage decode (newId (fst ki)) (rnd (fst ki)) (snd ki))
                    (ki # kis) st) = particles st @ (new1 @ new2)
      \<and> length (new1 @ new2)
          = length (filter (\<lambda>url. decode url \<noteq> None) (map snd (ki # kis)))
      \<and> (\<forall>q \<in> set (new1 @ new2). isPhoto q \<and> ptype q = PHOTO)"
    using n1 n2 by auto
  then show ?case by blast
qed

text \<open>
  C7: in every reachable state, an image that cannot be decoded leaves the state as it is,
  and an image that loads appends exactly one particle, an interactive one of type
  \<open>PHOTO\<close>; so the batch of new uploads appends as many interactive particles as it has
  decodable images, and the particles that were there stay in place. Ingestion has no
  failing branch: the functions involved are total and return a state. The witness is a
  batch of five decodable images and a corrupt one on the freshly mounted scene: 800
  particles before, 805 after, 5 of them interactive.
\<close>

theorem upload_adds_one_photo_per_valid_image:
  assumes "reachable st"
  shows "(decode imageUrl = None \<longrightarrow> ingestImage decode newId1 rnd1 imageUrl st = st)
       \<and> (decode imageUrl \<noteq> None \<longrightarrow>
            (\<exists>q. particles (ingestImage decode newId1 rnd1 imageUrl st) = particles st @ [q]
               \<and> isPhoto q \<and> ptype q = PHOTO))
       \<and> (\<exists>new. particles (snd (uploadEffect decode newId rnd uploadedImages (processed, st)))
                   = particles st @ new
              \<and> length new
                  = length (filter (\<lambda>url. decode url \<noteq> None) (drop processed uploadedImages))
              \<and> (\<forall>q \<in> set new. isPhoto q \<and> ptype q = PHOTO))"
proof -
  from ready_reachable [OF assms] obtain p0 ps par
    where p: "particles st = p0 # ps" "parent (mesh p0) = Some par" by blast
  have one: "decode imageUrl \<noteq> None \<longrightarrow>
            (\<exists>q. particles (ingestImage decode newId1 rnd1 imageUrl st) = particles st @ [q]
               \<and> isPhoto q \<and> ptype q = PHOTO)"
  proof
    assume d: "decode imageUrl \<noteq> None"
    from ingestImage_appends [OF p, of decode newId1 rnd1 imageUrl] d
    obtain new where n: "particles (ingestImage decode newId1 rnd1 imageUrl st) = particles st @ new"
        "length new = 1" "\<forall>q \<in> set new. isPhoto q \<and> ptype q = PHOTO"
      by auto
    from n(2) obtain q where "new = [q]" by (cases new) auto
    with n show "\<exists>q. particles (ingestImage decode newId1 rnd1 imageUrl st) = particles st @ [q]
               \<and> isPhoto q \<and> ptype q = PHOTO" by auto
  qed
  have none: "decode imageUrl = None \<longrightarrow> ingestImage decode newId1 rnd1 imageUrl st = st"
    by (simp add: ingestImage_def)
  let ?kis = "zip [processed ..< length uploadedImages] (drop processed uploadedImages)"
  have m: "map snd ?kis = drop processed uploadedImages"
    by (rule map_snd_zip) simp
  have batch: "\<exists>new. particles (snd (uploadEffect decode newId rnd uploadedImages (processed, st)))
                   = particles st @ new
              \<and> length new
                  = length (filter (\<lambda>url. decode url \<noteq> None) (drop processed uploadedImages))
              \<and> (\<forall>q \<in> set new. isPhoto q \<and> ptype q = PHOTO)"
  proof (cases "length (drop processed uploadedImages) > 0")
    case True
    then have u: "snd (uploadEffect decode newId rnd uploadedImages (processed, st))
        = fold (\<lambda>ki. ingestImage decode (newId (fst ki)) (rnd (fst ki)) (snd ki)) ?kis st"
      by (simp add: uploadEffect_def Let_def)
    show ?thesis
      unfolding u using fold_ingestImage_appends [OF p, of decode newId rnd ?kis]
      by (simp only: m)
  next
    case False
    then have "snd (uploadEffect decode newId rnd uploadedImages (processed, st)) = st"
      "drop processed uploadedImages = []"
      by (simp_all add: uploadEffect_def Let_def)
    then show ?thesis by simp
  qed
  from none one batch show ?thesis by blast
qed

theorem upload_adds_one_photo_per_valid_image_witness:
  "reachable (mountEffect (\<lambda>k. 0) initialState)
   \<and> length (filter (\<lambda>url. exampleDecode url \<noteq> None) exampleBatch) = 5
   \<and> length (filter (\<lambda>url. exampleDecode url = None) exampleBatch) = 1
   \<and> length (particles (mountEffect (\<lambda>k. 0) initialState)) = 800
   \<and> length (particles (snd (uploadEffect exampleDecode (\<lambda>k. 803 + k) (\<lambda>k j. 1 / 2)
        exampleBatch (0, mountEffect (\<lambda>k. 0) initialState)))) = 805
   \<and> length (filter isPhoto (particles (snd (uploadEffect exampleDecode (\<lambda>k. 803 + k)
        (\<lambda>k j. 1 / 2) exampleBatch (0, mountEffect (\<lambda>k. 0) initialState))))) = 5"
proof -
  let ?st = "mountEffect (\<lambda>k. 0) initialState"
  have r: "reachable ?st" by (rule reachable.mounted)
  have v: "length (filter (\<lambda>url. exampleDecode url \<noteq> None) exampleBatch) = 5"
    and c: "length (filter (\<lambda>url. exampleDecode url = None) exampleBatch) = 1"
    by (simp_all add: exampleDecode_def exampleBatch_def)
  have "length (particles ?st) = count CONFIG_particles"
    by (simp add: mountEffect_def)
  also have "\<dots> = 800" by (simp add: CONFIG_particles_def)
  finally have l: "length (particles ?st) = 800" .
  have np: "filter isPhoto (particles ?st) = []"
    by (simp add: mountEffect_def createParticle_def Let_def filter_empty_conv)
  from upload_adds_one_photo_per_valid_image [OF r, of exampleDecode _ _ _ "\<lambda>k. 803 + k"
      "\<lambda>k j. 1 / 2" exampleBatch 0]
  obtain new where n: "particles (snd (uploadEffect exampleDecode (\<lambda>k. 803 + k) (\<lambda>k j. 1 / 2)
        exampleBatch (0, ?st))) = particles ?st @ new"
      "length new = length (filter (\<lambda>url. exampleDecode url \<noteq> None) (drop 0 exampleBatch))"
      "\<forall>q \<in> set new. isPhoto q \<and> ptype q = PHOTO"
    by blast
  have f: "filter isPhoto new = new" using n(3) by (simp add: filter_id_conv)
  have n5: "length new = 5" using n(2) unfolding drop_0 v .
  have "length (particles (snd (uploadEffect exampleDecode (\<lambda>k. 803 + k) (\<lambda>k j. 1 / 2)
        exampleBatch (0, ?st)))) = 805"
    by (simp add: n(1) l n5)
  moreover have "length (filter isPhoto (particles (snd (uploadEffect exampleDecode
        (\<lambda>k. 803 + k) (\<lambda>k j. 1 / 2) exampleBatch (0, ?st))))) = 5"
    by (simp add: n(1) np f n5)
  ultimately show ?thesis using r v c l by blast
qed

section \<open>The tick as interpolation towards a constant target\<close>

lemma smoothedPinch_raycastingLogic:
  "smoothedPinch (raycastingLogic hits st) = smoothedPinch st"
  by (simp add: raycastingLogic_def Let_def split: list.splits option.splits)

lemma particles_animate:
  "particles (animate fr st)
   = map (updateParticle fr (mode (animate fr st)) (focusTarget (animate fr st))
            (smoothedPinch (animate fr st)))
       (zip (particles st) [0 ..< length (particles st)])"
  by (simp add: animate_def Let_def particles_raycastingLogic smoothedPinch_raycastingLogic)

lemma nth_particles_animate:
  assumes "i < length (particles st)"
  shows "particles (animate fr st) ! i
     = updateParticle fr (mode (animate fr st)) (focusTarget (animate fr st))
         (smoothedPinch (animate fr st)) (particles st ! i, i)"
  using assms by (simp add: particles_animate)

lemma updateParticle_keeps:
  "mesh (updateParticle fr m ft pinchVal (p, i)) = mesh p
   \<and> scatterPos (updateParticle fr m ft pinchVal (p, i)) = scatterPos p
   \<and> isPhoto (updateParticle fr m ft pinchVal (p, i)) = isPhoto p"
  by (simp add: updateParticle_def Let_def split: prod.splits)

lemma focus_target_position:
  "fst (particleTarget fr FOCUS ft pinchVal p i)
   = (if isFocusTarget ft p then camPos fr else multiplyScalar (scatterPos p) 1.8)"
  by (simp add: particleTarget_def Let_def)

lemma position_after_tick:
  assumes "i < length (particles st)"
  shows "position (particles (animate fr st) ! i)
     = lerpV (position (particles st ! i))
         (fst (particleTarget fr (mode (animate fr st)) (focusTarget (animate fr st))
                (smoothedPinch (animate fr st)) (particles st ! i) i))
         ((if isPhoto (particles st ! i) then 6 else 4) * delta fr)"
  by (simp only: nth_particles_animate [OF assms] updateParticle_position lerpSpeed_def)

lemma ticks_in_focus:
  assumes m: "mode st = FOCUS" and f: "focusTarget st = Some t"
    and i: "i < length (particles st)"
    and c: "isFocusTarget (Some t) (particles st ! i) \<longrightarrow> (\<forall>k. camPos (fr k) = c)"
  shows "mode (ticks fr n st) = FOCUS \<and> focusTarget (ticks fr n st) = Some t
       \<and> length (particles (ticks fr n st)) = length (particles st)
       \<and> mesh (particles (ticks fr n st) ! i) = mesh (particles st ! i)
       \<and> scatterPos (particles (ticks fr n st) ! i) = scatterPos (particles st ! i)
       \<and> isPhoto (particles (ticks fr n st) ! i) = isPhoto (particles st ! i)
       \<and> position (particles (ticks fr n st) ! i)
           = advance (if isPhoto (particles st ! i) then 6 else 4) (\<lambda>k. delta (fr k))
               (if isFocusTarget (Some t) (particles st ! i) then c
                else multiplyScalar (scatterPos (particles st ! i)) 1.8)
               n (position (particles st ! i))"
proof (induction n)
  case 0
  from m f show ?case by simp
next
  case (Suc n)
  let ?s = "ticks fr n st"
  let ?p = "particles st ! i"
  let ?q = "particles ?s ! i"
  from Suc.IH have ih: "mode ?s = FOCUS" "focusTarget ?s = Some t"
      "length (particles ?s) = length (particles st)"
      "mesh ?q = mesh ?p" "scatterPos ?q = scatterPos ?p" "isPhoto ?q = isPhoto ?p"
      "position ?q = advance (if isPhoto ?p then 6 else 4) (\<lambda>k. delta (fr k))
               (if isFocusTarget (Some t) ?p then c else multiplyScalar (scatterPos ?p) 1.8)
               n (position ?p)"
    by blast+
  have idle: "raycastingLogic (rayHits (fr n)) ?s = ?s"
    by (rule raycastingLogic_idle) (simp add: ih(2))
  have m': "mode (animate (fr n) ?s) = FOCUS" and f': "focusTarget (animate (fr n) ?s) = Some t"
    by (simp_all add: mode_animate focusTarget_animate idle ih)
  have iq: "i < length (particles ?s)" using i ih(3) by simp
  have ft: "isFocusTarget (Some t) ?q = isFocusTarget (Some t) ?p"
    by (simp add: isFocusTarget_def ih(4))
  have tg: "fst (particleTarget (fr n) FOCUS (Some t) pv ?q i)
      = (if isFocusTarget (Some t) ?p then c else multiplyScalar (scatterPos ?p) 1.8)" for pv
    using c by (simp add: focus_target_position ft ih(5))
  have nth: "particles (animate (fr n) ?s) ! i
      = updateParticle (fr n) FOCUS (Some t) (smoothedPinch (animate (fr n) ?s)) (?q, i)"
    using nth_particles_animate [OF iq, of "fr n"] by (simp only: m' f')
  have pos: "position (particles (animate (fr n) ?s) ! i)
      = lerpV (position ?q)
          (if isFocusTarget (Some t) ?p then c else multiplyScalar (scatterPos ?p) 1.8)
          ((if isPhoto ?p then 6 else 4) * delta (fr n))"
    by (simp only: nth updateParticle_position tg lerpSpeed_def ih(6))
  have keep: "mesh (particles (animate (fr n) ?s) ! i) = mesh ?p"
      "scatterPos (particles (animate (fr n) ?s) ! i) = scatterPos ?p"
      "isPhoto (particles (animate (fr n) ?s) ! i) = isPhoto ?p"
    by (simp_all only: nth updateParticle_keeps ih(4-6))
  have len: "length (particles (animate (fr n) ?s)) = length (particles st)"
    by (simp add: particles_animate ih(3))
  show ?case
    unfolding ticks.simps advance.simps
    using m' f' len keep pos by (simp only: ih(7) simp_thms)
qed


lemma errorAfter_Suc:
  assumes "0 < rate * dt n" "rate * dt n \<le> 1"
  shows "errorAfter rate dt target current (Suc n)
     = (1 - rate * dt n) * errorAfter rate dt target current n"
  using positionError_step [OF assms] by (simp add: errorAfter_def)

lemma halving_error_stays:
  assumes "\<forall>n. rate * dt n = (1 / 4) * (1 / 2) ^ n"
  shows "(1 / 2 + (1 / 2) * (1 / 2) ^ n) * positionError target current
         \<le> errorAfter rate dt target current n"
proof (induction n)
  case 0
  show ?case by (simp add: errorAfter_def)
next
  case (Suc n)
  define x :: real where "x = (1 / 2) ^ n"
  define e where "e = positionError target current"
  have x: "0 < x" "x \<le> 1" by (simp_all add: x_def power_le_one)
  have e: "0 \<le> e" by (simp add: e_def positionError_nonneg)
  have k: "rate * dt n = x / 4" using assms by (simp add: x_def)
  have kr: "0 < rate * dt n" "rate * dt n \<le> 1" using x by (simp_all add: k)
  have ih: "(1 / 2 + x / 2) * e \<le> errorAfter rate dt target current n"
    using Suc.IH by (simp add: x_def e_def)
  have "x * (1 - x) * e \<ge> 0" using x e by simp
  moreover have "(1 - x / 4) * ((1 / 2 + x / 2) * e) - (1 / 2 + x / 4) * e
      = (1 / 8) * (x * (1 - x) * e)"
    by (simp add: algebra_simps)
  ultimately have "(1 / 2 + x / 4) * e \<le> (1 - x / 4) * ((1 / 2 + x / 2) * e)" by linarith
  also have "\<dots> \<le> (1 - x / 4) * errorAfter rate dt target current n"
    using ih x by (intro mult_left_mono) simp_all
  also have "\<dots> = errorAfter rate dt target current (Suc n)"
    by (simp only: errorAfter_Suc [of rate dt n, OF kr] k)
  finally show ?case by (simp add: x_def e_def)
qed

lemma halving_error_no_limit:
  assumes "\<forall>n. rate * dt n = (1 / 4) * (1 / 2) ^ n" and "0 < positionError target current"
  shows "\<not> errorAfter rate dt target current \<longlonglongrightarrow> 0"
proof
  assume l: "errorAfter rate dt target current \<longlonglongrightarrow> 0"
  have "(1 / 2) * positionError target current \<le> errorAfter rate dt target current n" for n
  proof -
    have "(1 / 2) * positionError target current
        \<le> (1 / 2 + (1 / 2) * (1 / 2) ^ n) * positionError target current"
      using assms(2) by (intro mult_right_mono) simp_all
    with halving_error_stays [OF assms(1), where target = target and current = current and n = n]
    show ?thesis by linarith
  qed
  then have "\<exists>N. \<forall>n \<ge> N. (1 / 2) * positionError target current
      \<le> errorAfter rate dt target current n" by blast
  with l have "(1 / 2) * positionError target current \<le> 0" by (rule LIMSEQ_le_const)
  with assms(2) show False by simp
qed

lemma ornament_error: "positionError ornamentTarget (position exampleOrnament) = 27"
proof -
  have "sqrt ((27::real)\<^sup>2) = 27" by simp
  then show ?thesis
    by (simp add: positionError_def ornamentTarget_def multiplyScalar_def exampleOrnament_def)
qed

lemma tickError_advance:
  assumes "mode st = FOCUS" "focusTarget st = Some t" "i < length (particles st)"
    "isFocusTarget (Some t) (particles st ! i) \<longrightarrow> (\<forall>k. camPos (fr k) = c)"
  shows "tickError fr
           (if isFocusTarget (Some t) (particles st ! i) then c
            else multiplyScalar (scatterPos (particles st ! i)) 1.8) st i n
     = errorAfter (if isPhoto (particles st ! i) then 6 else 4) (\<lambda>k. delta (fr k))
         (if isFocusTarget (Some t) (particles st ! i) then c
          else multiplyScalar (scatterPos (particles st ! i)) 1.8)
         (position (particles st ! i)) n"
  using ticks_in_focus [OF assms, of n] by (simp only: tickError_def errorAfter_def)


lemma ornament_in_focusedState:
  "mode focusedState = FOCUS \<and> focusTarget focusedState = Some (mesh examplePhoto)
   \<and> 0 < length (particles focusedState)
   \<and> particles focusedState ! 0 = exampleOrnament
   \<and> \<not> isFocusTarget (Some (mesh examplePhoto)) exampleOrnament
   \<and> \<not> isPhoto exampleOrnament"
  by (simp add: focusedState_def scatterState_def isFocusTarget_def exampleOrnament_def
      examplePhoto_def)

text \<open>
  C9 as it is written fails: a fixed rate and frame times with \<open>rate * dt\<close> in \<open>(0, 1]\<close> do
  not make the error go to zero. With rate 4 (a decorative particle) and frame times that
  halve from tick to tick, \<open>rate * dt\<close> stays in \<open>(0, 1/4]\<close>, yet the error of the example
  ornament, 27 at the start, never falls below 13.5 and so does not tend to zero; the
  same holds for the ornament under the ticks themselves, in \<open>FOCUS\<close> mode with the photo
  in focus.
\<close>

theorem lerp_error_counterexample:
  "(\<forall>n. 0 < 4 * halvingDeltas n \<and> 4 * halvingDeltas n \<le> 1)
   \<and> errorAfter 4 halvingDeltas ornamentTarget (position exampleOrnament) 0 = 27
   \<and> \<not> errorAfter 4 halvingDeltas ornamentTarget (position exampleOrnament) \<longlonglongrightarrow> 0
   \<and> mode focusedState = FOCUS
   \<and> particles focusedState ! 0 = exampleOrnament
   \<and> (\<forall>n. delta (halvingFrames n) = halvingDeltas n)
   \<and> \<not> tickError halvingFrames ornamentTarget focusedState 0 \<longlonglongrightarrow> 0"
proof -
  have k: "\<forall>n. 4 * halvingDeltas n = (1 / 4) * (1 / 2) ^ n"
    by (simp add: halvingDeltas_def)
  have r: "\<forall>n. 0 < 4 * halvingDeltas n \<and> 4 * halvingDeltas n \<le> 1"
  proof
    fix n
    have "(1 / 2 :: real) ^ n \<le> 1" by (simp add: power_le_one)
    then show "0 < 4 * halvingDeltas n \<and> 4 * halvingDeltas n \<le> 1"
      by (simp add: halvingDeltas_def)
  qed
  have e0: "errorAfter 4 halvingDeltas ornamentTarget (position exampleOrnament) 0 = 27"
    by (simp add: errorAfter_def ornament_error)
  have nl: "\<not> errorAfter 4 halvingDeltas ornamentTarget (position exampleOrnament) \<longlonglongrightarrow> 0"
    by (rule halving_error_no_limit [OF k]) (simp add: ornament_error)
  have d: "\<forall>n. delta (halvingFrames n) = halvingDeltas n"
    by (simp add: halvingFrames_def)
  note o = ornament_in_focusedState
  have c: "isFocusTarget (Some (mesh examplePhoto)) (particles focusedState ! 0)
      \<longrightarrow> (\<forall>k. camPos (halvingFrames k) = origin)"
    using o by simp
  have "tickError halvingFrames ornamentTarget focusedState 0 n
      = errorAfter 4 halvingDeltas ornamentTarget (position exampleOrnament) n" for n
    using tickError_advance [OF conjunct1 [OF o] conjunct1 [OF conjunct2 [OF o]]
        conjunct1 [OF conjunct2 [OF conjunct2 [OF o]]] c, of n] o d
    by (simp add: ornamentTarget_def)
  then have "tickError halvingFrames ornamentTarget focusedState 0
      = errorAfter 4 halvingDeltas ornamentTarget (position exampleOrnament)"
    by (intro ext)
  with nl have tl: "\<not> tickError halvingFrames ornamentTarget focusedState 0 \<longlonglongrightarrow> 0"
    by simp
  from r e0 nl o d tl show ?thesis by blast
qed

text \<open>
  C9, amended: under \<open>current := current + (target - current) * rate * dt\<close> with a
  constant target, a fixed rate and frame times for which \<open>rate * dt\<close> stays in \<open>(0, 1]\<close>,
  the distance to the target never grows from one tick to the next, shrinks strictly while
  it is not zero, never exceeds the initial distance, and the position stays on the
  segment from the start to the target (no overshoot); it tends to zero when \<open>rate * dt\<close>
  also stays above some positive bound, as with a constant frame time. This is the tick:
  \<open>animate\<close> moves the position of each particle by this update towards the target of
  that frame, with rate 6 for photo particles and 4 for the others and \<open>dt\<close> the frame's
  \<open>delta\<close>; and over successive ticks in \<open>FOCUS\<close> mode, where the target of a particle is
  constant (1.8 times its scatter position, or the camera-relative point for the focus
  target when that point stays the same), its distance to the target is the sequence
  above.
\<close>

theorem lerp_error_decreases:
  assumes "\<forall>k. 0 < rate * dt k \<and> rate * dt k \<le> 1"
  shows "errorAfter rate dt target current (Suc n) \<le> errorAfter rate dt target current n
       \<and> (errorAfter rate dt target current n \<noteq> 0 \<longrightarrow>
            errorAfter rate dt target current (Suc n) < errorAfter rate dt target current n)
       \<and> errorAfter rate dt target current n \<le> positionError target current
       \<and> (\<exists>s. 0 \<le> s \<and> s \<le> 1
            \<and> vx (advance rate dt target n current) = vx target + s * (vx current - vx target)
            \<and> vy (advance rate dt target n current) = vy target + s * (vy current - vy target)
            \<and> vz (advance rate dt target n current) = vz target + s * (vz current - vz target))
       \<and> ((\<exists>d > 0. \<forall>k. d \<le> rate * dt k) \<longrightarrow>
            errorAfter rate dt target current \<longlonglongrightarrow> 0)
       \<and> (i < length (particles st) \<longrightarrow>
            position (particles (animate fr0 st) ! i)
            = lerpV (position (particles st ! i))
                (fst (particleTarget fr0 (mode (animate fr0 st)) (focusTarget (animate fr0 st))
                       (smoothedPinch (animate fr0 st)) (particles st ! i) i))
                ((if isPhoto (particles st ! i) then 6 else 4) * delta fr0))
       \<and> (mode st = FOCUS \<and> focusTarget st = Some t \<and> i < length (particles st)
            \<and> (isFocusTarget (Some t) (particles st ! i) \<longrightarrow> (\<forall>k. camPos (fr k) = c))
            \<and> rate = (if isPhoto (particles st ! i) then 6 else 4)
            \<and> (\<forall>k. dt k = delta (fr k))
            \<and> target = (if isFocusTarget (Some t) (particles st ! i) then c
                        else multiplyScalar (scatterPos (particles st ! i)) 1.8)
            \<and> current = position (particles st ! i) \<longrightarrow>
              position (particles (ticks fr n st) ! i) = advance rate dt target n current
            \<and> tickError fr target st i = errorAfter rate dt target current
            \<and> tickError fr target st i (Suc n) \<le> tickError fr target st i n
            \<and> (tickError fr target st i n \<noteq> 0 \<longrightarrow>
                 tickError fr target st i (Suc n) < tickError fr target st i n)
            \<and> ((\<exists>d > 0. \<forall>k. d \<le> rate * dt k) \<longrightarrow>
                 tickError fr target st i \<longlonglongrightarrow> 0))"
proof -
  have ea: "errorAfter rate dt target current
      = (\<lambda>j. positionError target (advance rate dt target j current))"
    by (intro ext) (simp add: errorAfter_def)
  note G = advance_error_properties [OF assms, of target _ current]
  have g1: "errorAfter rate dt target current (Suc j) \<le> errorAfter rate dt target current j"
    for j unfolding errorAfter_def using G [of j] by blast
  have g2: "errorAfter rate dt target current j \<noteq> 0 \<longrightarrow>
      errorAfter rate dt target current (Suc j) < errorAfter rate dt target current j" for j
    unfolding errorAfter_def using G [of j] by blast
  have g3: "errorAfter rate dt target current n \<le> positionError target current"
    unfolding errorAfter_def using G [of n] by blast
  have g4: "\<exists>s. 0 \<le> s \<and> s \<le> 1
            \<and> vx (advance rate dt target n current) = vx target + s * (vx current - vx target)
            \<and> vy (advance rate dt target n current) = vy target + s * (vy current - vy target)
            \<and> vz (advance rate dt target n current) = vz target + s * (vz current - vz target)"
    using G [of n] by blast
  have g5: "(\<exists>d > 0. \<forall>k. d \<le> rate * dt k) \<longrightarrow> errorAfter rate dt target current \<longlonglongrightarrow> 0"
    unfolding ea using G [of n] by blast
  have a: "i < length (particles st) \<longrightarrow>
            position (particles (animate fr0 st) ! i)
            = lerpV (position (particles st ! i))
                (fst (particleTarget fr0 (mode (animate fr0 st)) (focusTarget (animate fr0 st))
                       (smoothedPinch (animate fr0 st)) (particles st ! i) i))
                ((if isPhoto (particles st ! i) then 6 else 4) * delta fr0)"
    using position_after_tick by blast
  have b: "position (particles (ticks fr n st) ! i) = advance rate dt target n current
            \<and> tickError fr target st i = errorAfter rate dt target current
            \<and> tickError fr target st i (Suc n) \<le> tickError fr target st i n
            \<and> (tickError fr target st i n \<noteq> 0 \<longrightarrow>
                 tickError fr target st i (Suc n) < tickError fr target st i n)
            \<and> ((\<exists>d > 0. \<forall>k. d \<le> rate * dt k) \<longrightarrow>
                 tickError fr target st i \<longlonglongrightarrow> 0)"
    if h: "mode st = FOCUS \<and> focusTarget st = Some t \<and> i < length (particles st)
            \<and> (isFocusTarget (Some t) (particles st ! i) \<longrightarrow> (\<forall>k. camPos (fr k) = c))
            \<and> rate = (if isPhoto (particles st ! i) then 6 else 4)
            \<and> (\<forall>k. dt k = delta (fr k))
            \<and> target = (if isFocusTarget (Some t) (particles st ! i) then c
                        else multiplyScalar (scatterPos (particles st ! i)) 1.8)
            \<and> current = position (particles st ! i)"
  proof -
    from h have h1: "mode st = FOCUS" and h2: "focusTarget st = Some t"
      and h3: "i < length (particles st)"
      and h4: "isFocusTarget (Some t) (particles st ! i) \<longrightarrow> (\<forall>k. camPos (fr k) = c)"
      and h5: "rate = (if isPhoto (particles st ! i) then 6 else 4)"
      and h6: "dt = (\<lambda>k. delta (fr k))"
      and h7: "target = (if isFocusTarget (Some t) (particles st ! i) then c
                        else multiplyScalar (scatterPos (particles st ! i)) 1.8)"
      and h8: "current = position (particles st ! i)"
      by auto
    have p: "position (particles (ticks fr j st) ! i) = advance rate dt target j current" for j
      using ticks_in_focus [OF h1 h2 h3 h4, of j] by (simp only: h5 h6 h7 h8)
    have t: "tickError fr target st i = errorAfter rate dt target current"
      by (intro ext) (simp only: tickError_def errorAfter_def p)
    show ?thesis
      unfolding t using p [of n] g1 [of n] g2 [of n] g5 by blast
  qed
  from g1 [of n] g2 [of n] g3 g4 g5 a b show ?thesis by blast
qed


theorem lerp_error_decreases_witness:
  "(\<forall>k. 0 < 4 * delta (steadyFrames k) \<and> 4 * delta (steadyFrames k) \<le> 1)
   \<and> mode focusedState = FOCUS
   \<and> particles focusedState ! 0 = exampleOrnament
   \<and> tickError steadyFrames ornamentTarget focusedState 0 0 = 27
   \<and> tickError steadyFrames ornamentTarget focusedState 0 (Suc 0)
       < tickError steadyFrames ornamentTarget focusedState 0 0
   \<and> tickError steadyFrames ornamentTarget focusedState 0 \<longlonglongrightarrow> 0
   \<and> errorAfter 4 (\<lambda>k. delta (steadyFrames k)) ornamentTarget (position exampleOrnament)
       \<longlonglongrightarrow> 0"
proof -
  let ?dt = "\<lambda>k. delta (steadyFrames k)"
  have h: "\<forall>k. 0 < 4 * ?dt k \<and> 4 * ?dt k \<le> 1"
    by (simp add: steadyFrames_def exampleFrame_def)
  have lb: "\<exists>d > 0. \<forall>k. d \<le> 4 * ?dt k"
    by (intro exI [of _ "1 / 100"]) (simp add: steadyFrames_def exampleFrame_def)
  note o = ornament_in_focusedState
  have pre: "mode focusedState = FOCUS \<and> focusTarget focusedState = Some (mesh examplePhoto)
      \<and> 0 < length (particles focusedState)
      \<and> (isFocusTarget (Some (mesh examplePhoto)) (particles focusedState ! 0)
           \<longrightarrow> (\<forall>k. camPos (steadyFrames k) = origin))
      \<and> 4 = (if isPhoto (particles focusedState ! 0) then 6 else (4::real))
      \<and> (\<forall>k. ?dt k = delta (steadyFrames k))
      \<and> ornamentTarget
          = (if isFocusTarget (Some (mesh examplePhoto)) (particles focusedState ! 0) then origin
             else multiplyScalar (scatterPos (particles focusedState ! 0)) 1.8)
      \<and> position exampleOrnament = position (particles focusedState ! 0)"
    using o by (simp add: ornamentTarget_def)
  note T = lerp_error_decreases [OF h, where target = ornamentTarget
      and current = "position exampleOrnament" and st = focusedState and i = 0
      and t = "mesh examplePhoto" and fr = steadyFrames and c = origin]
  have eq: "tickError steadyFrames ornamentTarget focusedState 0
      = errorAfter 4 ?dt ornamentTarget (position exampleOrnament)"
    using T [of 0] pre by blast
  have e0: "tickError steadyFrames ornamentTarget focusedState 0 0 = 27"
    by (simp add: eq errorAfter_def ornament_error)
  have n0: "tickError steadyFrames ornamentTarget focusedState 0 0 \<noteq> 0"
    by (simp only: e0)
  have dec: "tickError steadyFrames ornamentTarget focusedState 0 (Suc 0)
       < tickError steadyFrames ornamentTarget focusedState 0 0"
    using T [of 0] pre n0 by blast
  have lim: "tickError steadyFrames ornamentTarget focusedState 0 \<longlonglongrightarrow> 0"
    using T [of 0] pre lb by blast
  have lim2: "errorAfter 4 ?dt ornamentTarget (position exampleOrnament) \<longlonglongrightarrow> 0"
    using T [of 0] lb by blast
  from h o e0 dec lim lim2 show ?thesis by blast
qed

end
